theory Spec2Isabelle
  imports Main "HOL-Library.Sublist"
begin

section \<open>Python values and exceptions\<close>

text \<open>
  The values that \<^verbatim>\<open>response.json()\<close> hands to the script, and the strings the script
  reads back from its persistence file. Strings hold code points below 256. A decoded
  JSON object is a dict; \<open>PDict\<close> lists its items in insertion order (keys distinct).
  JSON numbers with a fraction are outside the model.
\<close>

datatype pyval =
    PNone
  | PBool bool
  | PInt int
  | PStr string
  | PList "pyval list"
  | PDict "(string \<times> pyval) list"

text \<open>
  The exceptions of the script: \<open>ValueError\<close> with its message is the one raised at
  module level (line 11); \<open>UnpackError n\<close> is the \<^verbatim>\<open>ValueError\<close> that unpacking \<open>n\<close>
  values into three names raises (line 115); \<open>JSONDecodeError\<close> is what
  \<^verbatim>\<open>response.json()\<close> raises on a body that is not JSON; \<open>SystemExit\<close> is the exit of
  the argument parser; \<open>TimeError\<close> stands for what \<^verbatim>\<open>datetime.fromtimestamp\<close> raises
  on a value out of its range; \<open>FileNotFoundError\<close> is what opening a missing file for
  reading raises.
\<close>

datatype error =
    ValueError string
  | UnpackError nat
  | KeyError string
  | TypeError
  | JSONDecodeError
  | SystemExit int
  | TimeError
  | FileNotFoundError

text \<open>Truth value of an object, as \<^verbatim>\<open>if models:\<close> tests it.\<close>

fun truthy :: "pyval \<Rightarrow> bool" where
  "truthy PNone = False"
| "truthy (PBool b) = b"
| "truthy (PInt n) = (n \<noteq> 0)"
| "truthy (PStr s) = (s \<noteq> [])"
| "truthy (PList xs) = (xs \<noteq> [])"
| "truthy (PDict kvs) = (kvs \<noteq> [])"

text \<open>\<^verbatim>\<open>obj['key']\<close> with a string key: only a dict can answer it.\<close>

fun subscript :: "pyval \<Rightarrow> string \<Rightarrow> error + pyval" where
  "subscript (PDict kvs) k =
     (case map_of kvs k of None \<Rightarrow> Inl (KeyError k) | Some v \<Rightarrow> Inr v)"
| "subscript _ k = Inl TypeError"

text \<open>\<^verbatim>\<open>for x in obj\<close>: the elements of a list, the keys of a dict, the characters of a string.\<close>

fun iterate :: "pyval \<Rightarrow> error + pyval list" where
  "iterate (PList xs) = Inr xs"
| "iterate (PDict kvs) = Inr (map (\<lambda>kv. PStr (fst kv)) kvs)"
| "iterate (PStr s) = Inr (map (\<lambda>c. PStr [c]) s)"
| "iterate _ = Inl TypeError"

subsection \<open>Formatting\<close>

definition digit_char :: "int \<Rightarrow> char" where
  "digit_char d = char_of (48 + d)"

text \<open>The decimal digits of a number that is not negative, and \<^verbatim>\<open>str\<close> of an integer.\<close>

function str_digits :: "int \<Rightarrow> string" where
  "str_digits n =
     (if n < 10 then [digit_char n] else str_digits (n div 10) @ [digit_char (n mod 10)])"
  by pat_completeness auto
termination
  by (relation "measure nat") auto

declare str_digits.simps [simp del]

definition str_int :: "int \<Rightarrow> string" where
  "str_int i = (if i < 0 then CHR ''-'' # str_digits (- i) else str_digits i)"

section \<open>The world outside the script\<close>

record response =
  status_code :: int
  body :: "pyval option"

text \<open>
  \<open>body\<close> is the decoded JSON body, \<open>None\<close> when the body is not JSON. A request is its
  method, URL, headers and (for POST) data.
\<close>

datatype request =
    GET string "(string \<times> string) list"
  | POST string "(string \<times> string) list" string

datatype level = DEBUG | ERROR

text \<open>
  Everything the script does to its surroundings, in the order it does it: an HTTP
  exchange (the request and the response it got), a logging call, a line printed on
  standard output, and the operations on the files \<^verbatim>\<open>stopped_models.txt\<close> and
  \<^verbatim>\<open>model_manage_log.txt\<close>.
\<close>

datatype event =
    Http request response
  | Log level string
  | Print string
  | Open string string
  | Write string
  | ReadLines
  | Close
  | Remove string
  | BasicConfig string

text \<open>
  \<open>pfile\<close> is the text of \<^verbatim>\<open>stopped_models.txt\<close> (\<open>None\<close>: no such file) and \<open>log_present\<close>
  says whether \<^verbatim>\<open>model_manage_log.txt\<close> exists. Both files are taken to be readable and
  writable regular files on a POSIX system.
\<close>

record world =
  trace :: "event list"
  pfile :: "string option"
  log_present :: bool

text \<open>
  What the script cannot decide: the remote platform, which answers a request knowing
  everything that happened before it (the \<^verbatim>\<open>requests\<close> library is taken to deliver a
  response to every request); Python's \<^verbatim>\<open>repr\<close> of lists and dicts; and the local-time
  rendering \<^verbatim>\<open>datetime.fromtimestamp(ms / 1000).strftime('%Y-%m-%d %H:%M:%S')\<close>, which
  depends on the time zone of the machine.
\<close>

record runtime =
  server :: "event list \<Rightarrow> request \<Rightarrow> response"
  repr_container :: "pyval \<Rightarrow> string"
  local_time :: "int \<Rightarrow> error + string"

text \<open>What an f-string puts in place of \<^verbatim>\<open>{v}\<close>.\<close>

definition py_str :: "runtime \<Rightarrow> pyval \<Rightarrow> string" where
  "py_str rt v =
     (case v of
        PStr s \<Rightarrow> s
      | PInt i \<Rightarrow> str_int i
      | PBool b \<Rightarrow> (if b then ''True'' else ''False'')
      | PNone \<Rightarrow> ''None''
      | _ \<Rightarrow> repr_container rt v)"

subsection \<open>Computations that act on the world and may raise\<close>

type_synonym 'a io = "world \<Rightarrow> (error + 'a) \<times> world"

definition ret :: "'a \<Rightarrow> 'a io" where
  "ret x = (\<lambda>w. (Inr x, w))"

definition raise :: "error \<Rightarrow> 'a io" where
  "raise e = (\<lambda>w. (Inl e, w))"

definition and_then :: "'a io \<Rightarrow> ('a \<Rightarrow> 'b io) \<Rightarrow> 'b io" where
  "and_then m f = (\<lambda>w. case m w of (Inl e, w') \<Rightarrow> (Inl e, w') | (Inr x, w') \<Rightarrow> f x w')"

definition lift :: "error + 'a \<Rightarrow> 'a io" where
  "lift r = (case r of Inl e \<Rightarrow> raise e | Inr x \<Rightarrow> ret x)"

definition emit :: "event \<Rightarrow> unit io" where
  "emit e = (\<lambda>w. (Inr (), w\<lparr>trace := trace w @ [e]\<rparr>))"

primrec for_each :: "('a \<Rightarrow> unit io) \<Rightarrow> 'a list \<Rightarrow> unit io" where
  "for_each f [] = ret ()"
| "for_each f (x # xs) = and_then (f x) (\<lambda>_. for_each f xs)"

text \<open>\<^verbatim>\<open>requests.get\<close> and \<^verbatim>\<open>requests.post\<close>: one attempt, the exchange is recorded.\<close>

definition http :: "runtime \<Rightarrow> request \<Rightarrow> response io" where
  "http rt rq = (\<lambda>w.
     (Inr (server rt (trace w) rq),
      w\<lparr>trace := trace w @ [Http rq (server rt (trace w) rq)]\<rparr>))"

definition response_json :: "response \<Rightarrow> pyval io" where
  "response_json r = (case body r of None \<Rightarrow> raise JSONDecodeError | Some v \<Rightarrow> ret v)"

section \<open>The script\<close>

subsection \<open>Globals (lines 8 to 20)\<close>

definition domino_url :: string where
  "domino_url = ''https://prod-field.cs.domino.tech''"

definition headers :: "string \<Rightarrow> (string \<times> string) list" where
  "headers api_key = [(''accept'', ''application/json''), (''X-Domino-Api-Key'', api_key)]"

subsection \<open>The HTTP wrappers (lines 22 to 60)\<close>

definition projects_request :: "string \<Rightarrow> request" where
  "projects_request api_key = GET (domino_url @ ''/v4/projects'') (headers api_key)"

definition models_request :: "runtime \<Rightarrow> string \<Rightarrow> pyval \<Rightarrow> request" where
  "models_request rt api_key project_id =
     GET (domino_url @ ''/v4/modelManager/getModels?projectId='' @ py_str rt project_id)
       (headers api_key)"

definition stop_request :: "runtime \<Rightarrow> string \<Rightarrow> pyval \<Rightarrow> pyval \<Rightarrow> request" where
  "stop_request rt api_key model_id active_model_version_id =
     POST (domino_url @ ''/v4/models/'' @ py_str rt model_id @ ''/''
             @ py_str rt active_model_version_id @ ''/stopModelDeployment'')
       (headers api_key) ''''"

definition start_request :: "runtime \<Rightarrow> string \<Rightarrow> pyval \<Rightarrow> pyval \<Rightarrow> request" where
  "start_request rt api_key model_id active_model_version_id =
     POST (domino_url @ ''/v4/models/'' @ py_str rt model_id @ ''/''
             @ py_str rt active_model_version_id @ ''/startModelDeployment'')
       (headers api_key) ''''"

definition fetch_projects :: "runtime \<Rightarrow> string \<Rightarrow> pyval io" where
  "fetch_projects rt api_key =
     and_then (http rt (projects_request api_key)) (\<lambda>response.
       if status_code response = 200 then
         and_then (emit (Log DEBUG ''Projects fetched successfully'')) (\<lambda>_.
           response_json response)
       else
         and_then (emit (Log ERROR (''Failed to fetch projects: ''
                                      @ str_int (status_code response)))) (\<lambda>_.
           ret (PList [])))"

definition fetch_models :: "runtime \<Rightarrow> string \<Rightarrow> pyval \<Rightarrow> pyval io" where
  "fetch_models rt api_key project_id =
     and_then (http rt (models_request rt api_key project_id)) (\<lambda>response.
       if status_code response = 200 then
         and_then (emit (Log DEBUG (''Models fetched successfully for project ''
                                      @ py_str rt project_id))) (\<lambda>_.
           response_json response)
       else
         and_then (emit (Log ERROR (''Failed to fetch models for project ''
                                      @ py_str rt project_id @ '': ''
                                      @ str_int (status_code response)))) (\<lambda>_.
           ret (PList [])))"

definition stop_model_deployment :: "runtime \<Rightarrow> string \<Rightarrow> pyval \<Rightarrow> pyval \<Rightarrow> bool io" where
  "stop_model_deployment rt api_key model_id active_model_version_id =
     and_then (http rt (stop_request rt api_key model_id active_model_version_id)) (\<lambda>response.
       if status_code response = 200 then
         and_then (emit (Log DEBUG (''Successfully stopped model deployment for model ''
                                      @ py_str rt model_id @ '' version ''
                                      @ py_str rt active_model_version_id))) (\<lambda>_.
           ret True)
       else
         and_then (emit (Log ERROR (''Failed to stop model deployment for model ''
                                      @ py_str rt model_id @ '' version ''
                                      @ py_str rt active_model_version_id @ '': ''
                                      @ str_int (status_code response)))) (\<lambda>_.
           ret False))"

definition start_model_deployment :: "runtime \<Rightarrow> string \<Rightarrow> pyval \<Rightarrow> pyval \<Rightarrow> bool io" where
  "start_model_deployment rt api_key model_id active_model_version_id =
     and_then (http rt (start_request rt api_key model_id active_model_version_id)) (\<lambda>response.
       if status_code response = 200 then
         and_then (emit (Log DEBUG (''Successfully started model deployment for model ''
                                      @ py_str rt model_id @ '' version ''
                                      @ py_str rt active_model_version_id))) (\<lambda>_.
           ret True)
       else
         and_then (emit (Log ERROR (''Failed to start model deployment for model ''
                                      @ py_str rt model_id @ '' version ''
                                      @ py_str rt active_model_version_id @ '': ''
                                      @ str_int (status_code response)))) (\<lambda>_.
           ret False))"

subsection \<open>Text of the persistence file\<close>

definition LF :: char where
  "LF = CHR 0x0A"

definition CR :: char where
  "CR = CHR 0x0D"

text \<open>Reading in text mode turns \<^verbatim>\<open>\r\n\<close> and a lone \<^verbatim>\<open>\r\<close> into \<^verbatim>\<open>\n\<close>.\<close>

fun universal_newlines :: "string \<Rightarrow> string" where
  "universal_newlines [] = []"
| "universal_newlines [c] = [if c = CR then LF else c]"
| "universal_newlines (c # d # cs) =
     (if c = CR then
        (if d = LF then LF # universal_newlines cs else LF # universal_newlines (d # cs))
      else c # universal_newlines (d # cs))"

text \<open>\<^verbatim>\<open>file.readlines()\<close>: every line keeps its \<^verbatim>\<open>\n\<close>; the last line may have none.\<close>

fun readlines :: "string \<Rightarrow> string list" where
  "readlines [] = []"
| "readlines (c # cs) =
     (if c = LF then [c] # readlines cs
      else (case readlines cs of [] \<Rightarrow> [[c]] | l # ls \<Rightarrow> (c # l) # ls))"

text \<open>\<^verbatim>\<open>str.isspace\<close> on the code points below 256, and \<^verbatim>\<open>str.strip()\<close>.\<close>

definition isspace :: "char \<Rightarrow> bool" where
  "isspace c = (of_char c \<in> {9, 10, 11, 12, 13, 28, 29, 30, 31, 32, 133, 160 :: nat})"

definition strip :: "string \<Rightarrow> string" where
  "strip s = rev (dropWhile isspace (rev (dropWhile isspace s)))"

text \<open>\<^verbatim>\<open>s.split(sep)\<close> with a one-character separator: never an empty list.\<close>

fun split_on :: "char \<Rightarrow> string \<Rightarrow> string list" where
  "split_on sep [] = [[]]"
| "split_on sep (c # cs) =
     (if c = sep then [] # split_on sep cs
      else (case split_on sep cs of [] \<Rightarrow> [[c]] | p # ps \<Rightarrow> (c # p) # ps))"

subsection \<open>File operations\<close>

definition stopped_models_txt :: string where
  "stopped_models_txt = ''stopped_models.txt''"

definition model_manage_log_txt :: string where
  "model_manage_log_txt = ''model_manage_log.txt''"

definition path_exists_stopped :: "bool io" where
  "path_exists_stopped = (\<lambda>w. (Inr (pfile w \<noteq> None), w))"

text \<open>\<^verbatim>\<open>open("stopped_models.txt", "a")\<close> creates the file when it is missing.\<close>

definition open_append :: "unit io" where
  "open_append = (\<lambda>w. (Inr (),
     w\<lparr>trace := trace w @ [Open stopped_models_txt ''a''],
       pfile := Some (case pfile w of None \<Rightarrow> [] | Some old \<Rightarrow> old)\<rparr>))"

definition file_write :: "string \<Rightarrow> unit io" where
  "file_write s = (\<lambda>w. (Inr (),
     w\<lparr>trace := trace w @ [Write s],
       pfile := Some ((case pfile w of None \<Rightarrow> [] | Some old \<Rightarrow> old) @ s)\<rparr>))"

text \<open>Lines 111 and 112: open for reading, \<^verbatim>\<open>readlines()\<close>, close.\<close>

definition read_stopped_models :: "string list io" where
  "read_stopped_models = (\<lambda>w.
     case pfile w of
       None \<Rightarrow> (Inl FileNotFoundError, w)
     | Some text \<Rightarrow>
         (Inr (readlines (universal_newlines text)),
          w\<lparr>trace := trace w @ [Open stopped_models_txt ''r'', ReadLines, Close]\<rparr>))"

subsection \<open>format_timestamp (lines 62 and 63)\<close>

definition format_timestamp :: "runtime \<Rightarrow> pyval \<Rightarrow> error + string" where
  "format_timestamp rt timestamp =
     (case timestamp of
        PInt ms \<Rightarrow> local_time rt ms
      | PBool b \<Rightarrow> local_time rt (if b then 1 else 0)
      | _ \<Rightarrow> Inl TypeError)"

subsection \<open>show_models (lines 65 to 87)\<close>

text \<open>One line of the block: \<^verbatim>\<open>print(f"<label>{model['<key>']}<ending>")\<close>.\<close>

definition print_field :: "runtime \<Rightarrow> string \<Rightarrow> pyval \<Rightarrow> string \<Rightarrow> string \<Rightarrow> unit io" where
  "print_field rt label model key ending =
     and_then (lift (subscript model key)) (\<lambda>v. emit (Print (label @ py_str rt v @ ending)))"

fun collect :: "(error + 'a) list \<Rightarrow> error + 'a list" where
  "collect [] = Inr []"
| "collect (r # rs) =
     (case r of
        Inl e \<Rightarrow> Inl e
      | Inr x \<Rightarrow> (case collect rs of Inl e \<Rightarrow> Inl e | Inr xs \<Rightarrow> Inr (x # xs)))"

text \<open>\<^verbatim>\<open>sep.join(items)\<close>: every item has to be a string.\<close>

fun join :: "string \<Rightarrow> pyval list \<Rightarrow> error + string" where
  "join sep [] = Inr []"
| "join sep [x] = (case x of PStr s \<Rightarrow> Inr s | _ \<Rightarrow> Inl TypeError)"
| "join sep (x # y # ys) =
     (case x of
        PStr s \<Rightarrow> (case join sep (y # ys) of Inl e \<Rightarrow> Inl e | Inr r \<Rightarrow> Inr (s @ sep @ r))
      | _ \<Rightarrow> Inl TypeError)"

text \<open>\<^verbatim>\<open>', '.join([owner['fullName'] for owner in model['owners']])\<close>\<close>

definition owners_line :: "pyval \<Rightarrow> error + string" where
  "owners_line model =
     (case subscript model ''owners'' of
        Inl e \<Rightarrow> Inl e
      | Inr owners \<Rightarrow>
          (case iterate owners of
             Inl e \<Rightarrow> Inl e
           | Inr os \<Rightarrow>
               (case collect (map (\<lambda>owner. subscript owner ''fullName'') os) of
                  Inl e \<Rightarrow> Inl e
                | Inr names \<Rightarrow> join '', '' names)))"

text \<open>Lines 75 to 87, for one model.\<close>

definition print_model :: "runtime \<Rightarrow> pyval \<Rightarrow> unit io" where
  "print_model rt model =
     and_then (print_field rt ''Model ID: '' model ''id'' []) (\<lambda>_.
     and_then (print_field rt ''Name: '' model ''name'' []) (\<lambda>_.
     and_then (print_field rt ''Description: '' model ''description'' []) (\<lambda>_.
     and_then (print_field rt ''Active Version Number: '' model ''activeVersionNumber'' []) (\<lambda>_.
     and_then (print_field rt ''Active Model Version ID: '' model ''activeModelVersionId'' []) (\<lambda>_.
     and_then (print_field rt ''Active Version Data Plane ID: '' model
                 ''activeVersionDataPlaneId'' []) (\<lambda>_.
     and_then (print_field rt ''Active Version Status: '' model ''activeVersionStatus'' []) (\<lambda>_.
     and_then (lift (subscript model ''lastModified'')) (\<lambda>last_modified.
     and_then (lift (format_timestamp rt last_modified)) (\<lambda>formatted.
     and_then (emit (Print (''Last Modified: '' @ formatted))) (\<lambda>_.
     and_then (print_field rt ''Project ID: '' model ''projectId'' []) (\<lambda>_.
     and_then (print_field rt ''Project Name: '' model ''projectName'' []) (\<lambda>_.
     and_then (print_field rt ''Project Owner Username: '' model ''projectOwnerUsername'' []) (\<lambda>_.
     and_then (lift (owners_line model)) (\<lambda>owners.
     and_then (emit (Print (''Owners: '' @ owners))) (\<lambda>_.
     print_field rt ''Is Async: '' model ''isAsync'' [LF])))))))))))))))"

text \<open>
  The list comprehension of line 69:
  \<^verbatim>\<open>[model for model in models if model['activeVersionStatus'] == "Running"]\<close>.
\<close>

fun running_only :: "pyval list \<Rightarrow> error + pyval list" where
  "running_only [] = Inr []"
| "running_only (model # rest) =
     (case subscript model ''activeVersionStatus'' of
        Inl e \<Rightarrow> Inl e
      | Inr status \<Rightarrow>
          (case running_only rest of
             Inl e \<Rightarrow> Inl e
           | Inr r \<Rightarrow> Inr (if status = PStr ''Running'' then model # r else r)))"

text \<open>Lines 73 to 87: the header, then the block of every model.\<close>

definition show_block :: "runtime \<Rightarrow> pyval \<Rightarrow> pyval \<Rightarrow> pyval \<Rightarrow> unit io" where
  "show_block rt project_id project_name models =
     and_then (emit (Print (''Models for Project ID: '' @ py_str rt project_id
                              @ '' and Name: '' @ py_str rt project_name))) (\<lambda>_.
     and_then (lift (iterate models)) (\<lambda>items.
       for_each (print_model rt) items))"

text \<open>Lines 67 to 87: what \<open>show_models\<close> does with the models it has fetched.\<close>

definition show_fetched :: "runtime \<Rightarrow> pyval \<Rightarrow> pyval \<Rightarrow> bool \<Rightarrow> pyval \<Rightarrow> unit io" where
  "show_fetched rt project_id project_name show_running_only models =
     (if truthy models then
        if show_running_only then
          and_then (lift (iterate models)) (\<lambda>items.
          and_then (lift (running_only items)) (\<lambda>running.
            if running = [] then ret ()
            else show_block rt project_id project_name (PList running)))
        else show_block rt project_id project_name models
      else ret ())"

definition show_models :: "runtime \<Rightarrow> string \<Rightarrow> pyval \<Rightarrow> pyval \<Rightarrow> bool \<Rightarrow> unit io" where
  "show_models rt api_key project_id project_name show_running_only =
     and_then (fetch_models rt api_key project_id)
       (show_fetched rt project_id project_name show_running_only)"

subsection \<open>stop_running_models (lines 89 to 104)\<close>

text \<open>
  The loop of lines 93 to 98. \<open>stopped_models\<close> is the list built so far; the name of the
  model is read only after its stop call has succeeded.
\<close>

primrec stop_loop :: "runtime \<Rightarrow> string \<Rightarrow> pyval list \<Rightarrow> string list \<Rightarrow> string list io" where
  "stop_loop rt api_key [] stopped_models = ret stopped_models"
| "stop_loop rt api_key (model # rest) stopped_models =
     and_then (lift (subscript model ''activeVersionStatus'')) (\<lambda>status.
       if status = PStr ''Running'' then
         and_then (lift (subscript model ''id'')) (\<lambda>model_id.
         and_then (lift (subscript model ''activeModelVersionId'')) (\<lambda>active_model_version_id.
         and_then (stop_model_deployment rt api_key model_id active_model_version_id) (\<lambda>ok.
           if ok then
             and_then (lift (subscript model ''name'')) (\<lambda>name.
               stop_loop rt api_key rest
                 (stopped_models @ [py_str rt name @ '','' @ py_str rt model_id @ '',''
                                      @ py_str rt active_model_version_id]))
           else stop_loop rt api_key rest stopped_models)))
       else stop_loop rt api_key rest stopped_models)"

text \<open>Lines 91 to 104: what \<open>stop_running_models\<close> does with the models it has fetched.\<close>

definition stop_fetched :: "runtime \<Rightarrow> string \<Rightarrow> pyval \<Rightarrow> pyval \<Rightarrow> pyval \<Rightarrow> unit io" where
  "stop_fetched rt api_key project_id project_name models =
     (if truthy models then
        and_then (lift (iterate models)) (\<lambda>items.
        and_then (stop_loop rt api_key items []) (\<lambda>stopped_models.
          if stopped_models \<noteq> [] then
            and_then open_append (\<lambda>_.
            and_then (for_each (\<lambda>model. file_write (model @ [LF])) stopped_models) (\<lambda>_.
            and_then (emit Close) (\<lambda>_.
              emit (Print (''Stopped models for Project ID: '' @ py_str rt project_id
                             @ '' and Name: '' @ py_str rt project_name
                             @ ''. Details logged in stopped_models.txt.'')))))
          else ret ()))
      else ret ())"

definition stop_running_models :: "runtime \<Rightarrow> string \<Rightarrow> pyval \<Rightarrow> pyval \<Rightarrow> unit io" where
  "stop_running_models rt api_key project_id project_name =
     and_then (fetch_models rt api_key project_id)
       (stop_fetched rt api_key project_id project_name)"

subsection \<open>start_models_from_file (lines 106 to 117)\<close>

text \<open>Lines 115 to 117, for one line of the file.\<close>

definition start_line :: "runtime \<Rightarrow> string \<Rightarrow> string \<Rightarrow> unit io" where
  "start_line rt api_key model =
     (case split_on (CHR '','') (strip model) of
        [name, model_id, active_model_version_id] \<Rightarrow>
          and_then (start_model_deployment rt api_key (PStr model_id)
                      (PStr active_model_version_id)) (\<lambda>ok.
            if ok then
              emit (Print (''Successfully started model '' @ [CHR 0x27] @ name @ [CHR 0x27]
                             @ '' with ID '' @ model_id
                             @ '' and Version ID '' @ active_model_version_id))
            else ret ())
      | parts \<Rightarrow> raise (UnpackError (length parts)))"

definition start_models_from_file :: "runtime \<Rightarrow> string \<Rightarrow> unit io" where
  "start_models_from_file rt api_key =
     and_then path_exists_stopped (\<lambda>found.
       if \<not> found then
         emit (Print ''stopped_models.txt not found. No models to start.'')
       else
         and_then read_stopped_models (\<lambda>stopped_models.
           for_each (start_line rt api_key) stopped_models))"

subsection \<open>main (lines 119 to 157)\<close>

definition choices :: "string list" where
  "choices = [''show-all'', ''show-running'', ''start'', ''stop'']"

text \<open>
  The argument parser, for the words after the script's name: one word out of \<open>choices\<close>
  is the operation; a request for help exits with 0; anything else is a usage error.
\<close>

definition parse_args :: "string list \<Rightarrow> error + string" where
  "parse_args argv =
     (if ''-h'' \<in> set argv \<or> ''--help'' \<in> set argv then Inl (SystemExit 0)
      else (case argv of
              [operation] \<Rightarrow>
                if operation \<in> set choices then Inr operation else Inl (SystemExit 2)
            | _ \<Rightarrow> Inl (SystemExit 2)))"

text \<open>Lines 125 and 126.\<close>

definition delete_old_log :: "unit io" where
  "delete_old_log = (\<lambda>w.
     if log_present w then
       (Inr (), w\<lparr>trace := trace w @ [Remove model_manage_log_txt], log_present := False\<rparr>)
     else (Inr (), w))"

text \<open>Lines 129 to 134: the handler opens the log file in append mode at once.\<close>

definition basic_config :: "unit io" where
  "basic_config = (\<lambda>w.
     (Inr (), w\<lparr>trace := trace w @ [BasicConfig model_manage_log_txt], log_present := True\<rparr>))"

text \<open>Lines 150 to 157: the branch on the operation.\<close>

definition dispatch :: "runtime \<Rightarrow> string \<Rightarrow> string \<Rightarrow> pyval \<Rightarrow> pyval \<Rightarrow> unit io" where
  "dispatch rt api_key operation project_id project_name =
     (if operation = ''show-all'' then
        show_models rt api_key project_id project_name False
      else if operation = ''show-running'' then
        show_models rt api_key project_id project_name True
      else if operation = ''stop'' then
        stop_running_models rt api_key project_id project_name
      else if operation = ''start'' then
        start_models_from_file rt api_key
      else ret ())"

text \<open>Lines 142 to 157: the body of the loop over the projects.\<close>

definition main_project :: "runtime \<Rightarrow> string \<Rightarrow> string \<Rightarrow> pyval \<Rightarrow> unit io" where
  "main_project rt api_key operation project =
     and_then (lift (subscript project ''id'')) (\<lambda>project_id.
     and_then (lift (subscript project ''name'')) (\<lambda>project_name.
     and_then (fetch_models rt api_key project_id) (\<lambda>models.
       if truthy models then
         and_then (emit (Log DEBUG (''Operation: '' @ operation @ '', Project ID: ''
                                      @ py_str rt project_id @ '', Project Name: ''
                                      @ py_str rt project_name))) (\<lambda>_.
         and_then (emit (Print (''Performing operation '' @ [CHR 0x27] @ operation @ [CHR 0x27]
                                  @ '' on Project ID: '' @ py_str rt project_id
                                  @ '' and Name: '' @ py_str rt project_name))) (\<lambda>_.
           dispatch rt api_key operation project_id project_name))
       else ret ())))"

definition main :: "runtime \<Rightarrow> string \<Rightarrow> string list \<Rightarrow> unit io" where
  "main rt api_key argv =
     and_then (lift (parse_args argv)) (\<lambda>operation.
     and_then delete_old_log (\<lambda>_.
     and_then basic_config (\<lambda>_.
     and_then (fetch_projects rt api_key) (\<lambda>projects.
       if \<not> truthy projects then emit (Print ''No projects found.'')
       else
         and_then (lift (iterate projects)) (\<lambda>items.
           for_each (main_project rt api_key operation) items)))))"

subsection \<open>The script as a whole\<close>

text \<open>
  Lines 8 to 11 run first, with \<open>getenv\<close> the value of \<^verbatim>\<open>DOMINO_USER_API_KEY\<close> in the
  environment (\<open>None\<close>: not set); the last two lines call \<open>main\<close>.
\<close>

definition script :: "runtime \<Rightarrow> string option \<Rightarrow> string list \<Rightarrow> unit io" where
  "script rt getenv argv =
     (case getenv of
        None \<Rightarrow>
          raise (ValueError ''API key is not set in the environment variable DOMINO_USER_API_KEY'')
      | Some api_key \<Rightarrow>
          if api_key = [] then
            raise (ValueError ''API key is not set in the environment variable DOMINO_USER_API_KEY'')
          else main rt api_key argv)"

section \<open>Observing a run\<close>

text \<open>
  The events between two worlds of one run, and the parts of them that the properties
  below speak of.
\<close>

definition new_events :: "world \<Rightarrow> world \<Rightarrow> event list" where
  "new_events w w' = drop (length (trace w)) (trace w')"

definition requests_of :: "event list \<Rightarrow> request list" where
  "requests_of es = concat (map (\<lambda>e. case e of Http rq r \<Rightarrow> [rq] | _ \<Rightarrow> []) es)"

definition prints_of :: "event list \<Rightarrow> string list" where
  "prints_of es = concat (map (\<lambda>e. case e of Print s \<Rightarrow> [s] | _ \<Rightarrow> []) es)"

text \<open>
  The parts of a line of the persistence file as line 115 sees them; a line is well formed
  when there are three. \<open>line_request\<close> is the start call of a well-formed line.
\<close>

definition line_fields :: "string \<Rightarrow> string list" where
  "line_fields line = split_on (CHR '','') (strip line)"

definition well_formed_line :: "string \<Rightarrow> bool" where
  "well_formed_line line = (length (line_fields line) = 3)"

definition line_request :: "runtime \<Rightarrow> string \<Rightarrow> string \<Rightarrow> request" where
  "line_request rt api_key line =
     start_request rt api_key (PStr (line_fields line ! 1)) (PStr (line_fields line ! 2))"

definition writes_of :: "event list \<Rightarrow> string list" where
  "writes_of es = concat (map (\<lambda>e. case e of Write s \<Rightarrow> [s] | _ \<Rightarrow> []) es)"

text \<open>The status codes that the POST requests among the events got, in order.\<close>

definition post_statuses :: "event list \<Rightarrow> int list" where
  "post_statuses es =
     concat (map (\<lambda>e. case e of Http (POST u h d) r \<Rightarrow> [status_code r] | _ \<Rightarrow> []) es)"

definition is_get :: "request \<Rightarrow> bool" where
  "is_get rq = (case rq of GET u h \<Rightarrow> True | POST u h d \<Rightarrow> False)"

definition touches_file :: "event \<Rightarrow> bool" where
  "touches_file e = (case e of Open p m \<Rightarrow> True | Write s \<Rightarrow> True | ReadLines \<Rightarrow> True
                     | Close \<Rightarrow> True | Remove p \<Rightarrow> True | _ \<Rightarrow> False)"

definition is_post_or_log :: "event \<Rightarrow> bool" where
  "is_post_or_log e = (case e of Http (POST u h d) r \<Rightarrow> True | Log l s \<Rightarrow> True | _ \<Rightarrow> False)"

definition is_print :: "event \<Rightarrow> bool" where
  "is_print e = (case e of Print s \<Rightarrow> True | _ \<Rightarrow> False)"

text \<open>An event that changes no file: no write, no removal, and a file opened only to read.\<close>

definition read_only :: "event \<Rightarrow> bool" where
  "read_only e = (case e of Write s \<Rightarrow> False | Open p m \<Rightarrow> m = ''r'' | Remove p \<Rightarrow> False
                  | _ \<Rightarrow> True)"

text \<open>
  \<open>emits_only P m\<close>: whatever \<open>m\<close> adds to the trace satisfies \<open>P\<close>. \<open>keeps_pfile m\<close>:
  \<open>m\<close> leaves the text of \<^verbatim>\<open>stopped_models.txt\<close> as it is.
\<close>

definition emits_only :: "(event \<Rightarrow> bool) \<Rightarrow> 'a io \<Rightarrow> bool" where
  "emits_only P m = (\<forall>w. \<exists>es. trace (snd (m w)) = trace w @ es \<and> list_all P es)"

definition keeps_pfile :: "'a io \<Rightarrow> bool" where
  "keeps_pfile m = (\<forall>w. pfile (snd (m w)) = pfile w)"

text \<open>
  What the stop operation records. A model is running when its \<^verbatim>\<open>activeVersionStatus\<close>
  is \<^verbatim>\<open>"Running"\<close>; \<open>record_of\<close> is the line \<^verbatim>\<open>name,model_id,version_id\<close> of a model
  that has the three keys; \<open>model_ok\<close> says that a model has the keys the stop operation
  reads of it: its status and, when it is running, its id, version id and name.
\<close>

definition is_running :: "pyval \<Rightarrow> bool" where
  "is_running model = (subscript model ''activeVersionStatus'' = Inr (PStr ''Running''))"

definition record_of :: "runtime \<Rightarrow> pyval \<Rightarrow> string option" where
  "record_of rt model =
     (case subscript model ''name'' of
        Inl e \<Rightarrow> None
      | Inr name \<Rightarrow>
          (case subscript model ''id'' of
             Inl e \<Rightarrow> None
           | Inr model_id \<Rightarrow>
               (case subscript model ''activeModelVersionId'' of
                  Inl e \<Rightarrow> None
                | Inr version_id \<Rightarrow>
                    Some (py_str rt name @ '','' @ py_str rt model_id @ '',''
                            @ py_str rt version_id))))"

definition has_key :: "pyval \<Rightarrow> string \<Rightarrow> bool" where
  "has_key model key = (case subscript model key of Inl e \<Rightarrow> False | Inr v \<Rightarrow> True)"

definition model_ok :: "pyval \<Rightarrow> bool" where
  "model_ok model =
     (has_key model ''activeVersionStatus''
      \<and> (if is_running model
          then has_key model ''id'' \<and> has_key model ''activeModelVersionId''
               \<and> has_key model ''name''
          else True))"

text \<open>
  \<open>stopped_as rt xs es lines\<close>: the events \<open>es\<close> hold one POST request for every running
  model of \<open>xs\<close>; \<open>lines\<close> has one entry for every POST request that got status 200; and
  the entries are the records of some of the running models, in the order of \<open>xs\<close>.
\<close>

definition stopped_as :: "runtime \<Rightarrow> pyval list \<Rightarrow> event list \<Rightarrow> string list \<Rightarrow> bool" where
  "stopped_as rt xs es lines =
     (length (post_statuses es) = length (filter is_running xs)
      \<and> length lines = length (filter (\<lambda>c. c = 200) (post_statuses es))
      \<and> (\<exists>ys. subseq ys (filter is_running xs) \<and> map Some lines = map (record_of rt) ys))"

definition not_get :: "event \<Rightarrow> bool" where
  "not_get e = (case e of Http (GET u h) r \<Rightarrow> False | _ \<Rightarrow> True)"

subsection \<open>Sample surroundings\<close>

text \<open>A platform that gives the same response to every request, and an empty world.\<close>

definition steady :: "response \<Rightarrow> runtime" where
  "steady r = \<lparr>server = (\<lambda>h rq. r), repr_container = (\<lambda>v. ''[...]''),
               local_time = (\<lambda>ms. Inl TimeError)\<rparr>"

definition fresh :: "string option \<Rightarrow> world" where
  "fresh f = \<lparr>trace = [], pfile = f, log_present = False\<rparr>"

definition two_records :: string where
  "two_records = ''churn,m1,v1'' @ [LF] @ '' fraud , m2 ,v2'' @ [CR, LF]"

definition broken_records :: string where
  "broken_records = ''churn,m1,v1'' @ [LF] @ ''garbage'' @ [LF] @ ''fraud,m2,v2'' @ [LF]"

text \<open>
  A platform with three models, two of them running, on which stopping \<^verbatim>\<open>m3\<close> fails; a
  project; and a platform whose only model is not running.
\<close>

definition sample_model :: "string \<Rightarrow> string \<Rightarrow> string \<Rightarrow> string \<Rightarrow> pyval" where
  "sample_model name model_id version_id status =
     PDict [(''id'', PStr model_id), (''name'', PStr name),
            (''activeModelVersionId'', PStr version_id), (''activeVersionStatus'', PStr status)]"

definition sample_models :: "pyval list" where
  "sample_models =
     [sample_model ''churn'' ''m1'' ''v1'' ''Running'',
      sample_model ''spam'' ''m2'' ''v2'' ''Stopped'',
      sample_model ''fraud'' ''m3'' ''v3'' ''Running'']"

definition sample_platform :: runtime where
  "sample_platform =
     \<lparr>server = (\<lambda>h rq. case rq of
                   GET u hs \<Rightarrow> \<lparr>status_code = 200, body = Some (PList sample_models)\<rparr>
                 | POST u hs d \<Rightarrow>
                     \<lparr>status_code =
                        (if u = domino_url @ ''/v4/models/m3/v3/stopModelDeployment''
                         then 500 else 200),
                      body = None\<rparr>),
      repr_container = (\<lambda>v. ''[...]''),
      local_time = (\<lambda>ms. Inl TimeError)\<rparr>"

definition sample_project :: pyval where
  "sample_project = PDict [(''id'', PStr ''p1''), (''name'', PStr ''Scoring'')]"

definition idle_platform :: runtime where
  "idle_platform =
     steady \<lparr>status_code = 200,
             body = Some (PList [sample_model ''spam'' ''m2'' ''v2'' ''Stopped''])\<rparr>"

section \<open>Basic facts\<close>

lemma and_then_ret [simp]: "and_then (ret x) f = f x"
  by (simp add: and_then_def ret_def)

lemma and_then_raise [simp]: "and_then (raise e) f = raise e"
  by (simp add: and_then_def raise_def)

lemma lift_simps [simp]: "lift (Inr x) = ret x" "lift (Inl e) = raise e"
  by (simp_all add: lift_def)

lemma and_then_emit [simp]: "and_then (emit e) f w = f () (w\<lparr>trace := trace w @ [e]\<rparr>)"
  by (simp add: and_then_def emit_def)

lemma and_then_http [simp]:
  "and_then (http rt rq) f w =
     f (server rt (trace w) rq) (w\<lparr>trace := trace w @ [Http rq (server rt (trace w) rq)]\<rparr>)"
  by (simp add: and_then_def http_def)

lemma ret_apply [simp]: "ret x w = (Inr x, w)"
  by (simp add: ret_def)

lemma raise_apply [simp]: "raise e w = (Inl e, w)"
  by (simp add: raise_def)

lemma emit_apply [simp]: "emit e w = (Inr (), w\<lparr>trace := trace w @ [e]\<rparr>)"
  by (simp add: emit_def)

lemma and_then_apply:
  "and_then m f w = (case m w of (Inl e, w') \<Rightarrow> (Inl e, w') | (Inr x, w') \<Rightarrow> f x w')"
  by (simp add: and_then_def)

lemma and_then_assoc [simp]:
  "and_then (and_then m f) g = and_then m (\<lambda>x. and_then (f x) g)"
  by (auto simp: and_then_def fun_eq_iff split: prod.splits sum.splits)

lemma and_then_if [simp]:
  "and_then (if c then m else n) f = (if c then and_then m f else and_then n f)"
  by simp

lemma new_events_append [simp]: "trace w' = trace w @ es \<Longrightarrow> new_events w w' = es"
  by (simp add: new_events_def)

lemma requests_of_simps [simp]:
  "requests_of [] = []"
  "requests_of (Http rq r # es) = rq # requests_of es"
  "requests_of (Log l s # es) = requests_of es"
  "requests_of (Print s # es) = requests_of es"
  "requests_of (Open p m # es) = requests_of es"
  "requests_of (Write s # es) = requests_of es"
  "requests_of (ReadLines # es) = requests_of es"
  "requests_of (Close # es) = requests_of es"
  "requests_of (es @ es') = requests_of es @ requests_of es'"
  by (simp_all add: requests_of_def)

lemma prints_of_simps [simp]:
  "prints_of [] = []"
  "prints_of (Http rq r # es) = prints_of es"
  "prints_of (Log l s # es) = prints_of es"
  "prints_of (Print s # es) = s # prints_of es"
  "prints_of (Open p m # es) = prints_of es"
  "prints_of (Write s # es) = prints_of es"
  "prints_of (ReadLines # es) = prints_of es"
  "prints_of (Close # es) = prints_of es"
  "prints_of (es @ es') = prints_of es @ prints_of es'"
  by (simp_all add: prints_of_def)

subsection \<open>What a computation may emit, and what it leaves alone\<close>

lemma emits_only_ret [simp, intro!]: "emits_only P (ret x)"
  by (simp add: emits_only_def)

lemma emits_only_raise [simp, intro!]: "emits_only P (raise e)"
  by (simp add: emits_only_def)

lemma emits_only_lift [simp, intro!]: "emits_only P (lift r)"
  by (cases r) simp_all

lemma emits_only_emit [intro!]: "P e \<Longrightarrow> emits_only P (emit e)"
  by (simp add: emits_only_def)

lemma emits_only_http [intro!]: "(\<And>r. P (Http rq r)) \<Longrightarrow> emits_only P (http rt rq)"
  by (simp add: emits_only_def http_def)

lemma emits_only_and_then [intro!]:
  assumes m: "emits_only P m" and f: "\<And>x. emits_only P (f x)"
  shows "emits_only P (and_then m f)"
  unfolding emits_only_def
proof
  fix w
  from m obtain es1 where m1: "trace (snd (m w)) = trace w @ es1" "list_all P es1"
    unfolding emits_only_def by blast
  show "\<exists>es. trace (snd (and_then m f w)) = trace w @ es \<and> list_all P es"
  proof (cases "m w")
    case (Pair r w1)
    show ?thesis
    proof (cases r)
      case (Inl e)
      with Pair m1 show ?thesis by (auto simp: and_then_apply)
    next
      case (Inr x)
      from f [of x] obtain es2 where f2: "trace (snd (f x w1)) = trace w1 @ es2" "list_all P es2"
        unfolding emits_only_def by blast
      have "trace (snd (f x w1)) = trace w @ (es1 @ es2)"
        using m1 f2 Pair by simp
      moreover have "list_all P (es1 @ es2)"
        using m1 f2 by simp
      ultimately have "\<exists>es. trace (snd (f x w1)) = trace w @ es \<and> list_all P es"
        by blast
      with Pair Inr show ?thesis by (simp add: and_then_apply)
    qed
  qed
qed

lemma emits_only_if [intro!]:
  "(c \<Longrightarrow> emits_only P m) \<Longrightarrow> (\<not> c \<Longrightarrow> emits_only P n) \<Longrightarrow> emits_only P (if c then m else n)"
  by simp

lemma emits_only_for_each [intro!]:
  "(\<And>x. emits_only P (f x)) \<Longrightarrow> emits_only P (for_each f xs)"
  by (induction xs) auto

lemma emits_only_mono: "emits_only P m \<Longrightarrow> (\<And>e. P e \<Longrightarrow> Q e) \<Longrightarrow> emits_only Q m"
  unfolding emits_only_def list_all_iff by blast

lemma emits_onlyD:
  "emits_only P m \<Longrightarrow> m w = (r, w') \<Longrightarrow> \<exists>es. trace w' = trace w @ es \<and> list_all P es"
  unfolding emits_only_def by (metis snd_conv)

lemma keeps_pfile_ret [simp, intro!]: "keeps_pfile (ret x)"
  by (simp add: keeps_pfile_def)

lemma keeps_pfile_raise [simp, intro!]: "keeps_pfile (raise e)"
  by (simp add: keeps_pfile_def)

lemma keeps_pfile_lift [simp, intro!]: "keeps_pfile (lift r)"
  by (cases r) simp_all

lemma keeps_pfile_emit [simp, intro!]: "keeps_pfile (emit e)"
  by (simp add: keeps_pfile_def)

lemma keeps_pfile_http [simp, intro!]: "keeps_pfile (http rt rq)"
  by (simp add: keeps_pfile_def http_def)

lemma keeps_pfile_and_then [intro!]:
  "keeps_pfile m \<Longrightarrow> (\<And>x. keeps_pfile (f x)) \<Longrightarrow> keeps_pfile (and_then m f)"
  unfolding keeps_pfile_def and_then_apply
  by (auto split: prod.splits sum.splits) (metis snd_conv)+

lemma keeps_pfile_if [intro!]:
  "(c \<Longrightarrow> keeps_pfile m) \<Longrightarrow> (\<not> c \<Longrightarrow> keeps_pfile n) \<Longrightarrow> keeps_pfile (if c then m else n)"
  by simp

lemma keeps_pfile_for_each [intro!]:
  "(\<And>x. keeps_pfile (f x)) \<Longrightarrow> keeps_pfile (for_each f xs)"
  by (induction xs) auto

lemma keeps_pfileD:
  "keeps_pfile m \<Longrightarrow> m w = (r, w') \<Longrightarrow> pfile w' = pfile w"
  unfolding keeps_pfile_def by (metis snd_conv)

subsection \<open>The wrappers and the start operation\<close>

lemma stop_model_deployment_emits: "emits_only is_post_or_log (stop_model_deployment rt k m v)"
  unfolding stop_model_deployment_def stop_request_def
  by (auto simp: is_post_or_log_def)

lemma start_model_deployment_emits: "emits_only is_post_or_log (start_model_deployment rt k m v)"
  unfolding start_model_deployment_def start_request_def
  by (auto simp: is_post_or_log_def)

lemma start_line_emits:
  "emits_only (\<lambda>e. is_post_or_log e \<or> is_print e) (start_line rt k l)"
  unfolding start_line_def
  by (auto split: list.splits simp: is_print_def
      intro: emits_only_mono [OF start_model_deployment_emits])

lemma read_stopped_models_emits:
  "emits_only (\<lambda>e. e \<in> {Open stopped_models_txt ''r'', ReadLines, Close}) read_stopped_models"
  by (simp add: emits_only_def read_stopped_models_def split: option.splits)

lemma path_exists_stopped_emits: "emits_only P path_exists_stopped"
  by (simp add: emits_only_def path_exists_stopped_def)

lemma start_models_from_file_emits: "emits_only read_only (start_models_from_file rt k)"
  unfolding start_models_from_file_def
  apply (intro emits_only_and_then emits_only_if emits_only_for_each path_exists_stopped_emits)
    apply (rule emits_only_emit, simp add: read_only_def)
   apply (rule emits_only_mono [OF read_stopped_models_emits], auto simp: read_only_def)[1]
  apply (rule emits_only_mono [OF start_line_emits])
  apply (auto simp: read_only_def is_post_or_log_def is_print_def split: event.splits request.splits)
  done

lemma start_model_deployment_keeps: "keeps_pfile (start_model_deployment rt k m v)"
  unfolding start_model_deployment_def by auto

lemma stop_model_deployment_keeps: "keeps_pfile (stop_model_deployment rt k m v)"
  unfolding stop_model_deployment_def by auto

lemma fetch_models_keeps: "keeps_pfile (fetch_models rt k p)"
  unfolding fetch_models_def response_json_def by (auto split: option.splits)

lemma start_line_keeps: "keeps_pfile (start_line rt k l)"
  unfolding start_line_def
  by (auto split: list.splits intro: start_model_deployment_keeps)

lemma start_models_from_file_keeps: "keeps_pfile (start_models_from_file rt k)"
  unfolding start_models_from_file_def
  apply (intro keeps_pfile_and_then keeps_pfile_if keeps_pfile_for_each start_line_keeps)
    apply (simp_all add: keeps_pfile_def path_exists_stopped_def read_stopped_models_def
      split: option.splits)
  done

lemma fetch_projects_keeps: "keeps_pfile (fetch_projects rt k)"
  unfolding fetch_projects_def response_json_def by (auto split: option.splits)

lemma log_setup_keeps: "keeps_pfile delete_old_log" "keeps_pfile basic_config"
  by (simp_all add: keeps_pfile_def delete_old_log_def basic_config_def)

lemma main_project_start_keeps: "keeps_pfile (main_project rt k ''start'' project)"
  unfolding main_project_def dispatch_def
  by (auto intro: fetch_models_keeps start_models_from_file_keeps)

lemma main_start_keeps: "keeps_pfile (main rt k [''start''])"
proof -
  have "parse_args [''start''] = Inr ''start''"
    by (simp add: parse_args_def choices_def)
  then show ?thesis
    unfolding main_def
    by (auto intro: log_setup_keeps fetch_projects_keeps main_project_start_keeps)
qed

section \<open>The HTTP wrappers on a failed call\<close>

text \<open>
  C1. Whenever the platform answers the request of a wrapper with a status other than 200,
  \<open>fetch_projects\<close> and \<open>fetch_models\<close> return the empty list and \<open>stop_model_deployment\<close>
  and \<open>start_model_deployment\<close> return \<open>False\<close>: each returns a value, none raises.
\<close>

theorem non_200_is_absorbed:
  "(status_code (server rt (trace w) (projects_request k)) \<noteq> 200
      \<longrightarrow> fst (fetch_projects rt k w) = Inr (PList []))
   \<and> (status_code (server rt (trace w) (models_request rt k p)) \<noteq> 200
      \<longrightarrow> fst (fetch_models rt k p w) = Inr (PList []))
   \<and> (status_code (server rt (trace w) (stop_request rt k m v)) \<noteq> 200
      \<longrightarrow> fst (stop_model_deployment rt k m v w) = Inr False)
   \<and> (status_code (server rt (trace w) (start_request rt k m v)) \<noteq> 200
      \<longrightarrow> fst (start_model_deployment rt k m v w) = Inr False)"
  by (simp add: fetch_projects_def fetch_models_def stop_model_deployment_def
      start_model_deployment_def)

theorem non_200_is_absorbed_witness:
  "status_code (server (steady \<lparr>status_code = 503, body = None\<rparr>) (trace (fresh None))
       (projects_request ''key'')) \<noteq> 200
   \<and> fst (fetch_projects (steady \<lparr>status_code = 503, body = None\<rparr>) ''key'' (fresh None))
       = Inr (PList [])
   \<and> fst (fetch_models (steady \<lparr>status_code = 503, body = None\<rparr>) ''key'' (PStr ''p1'')
            (fresh None)) = Inr (PList [])
   \<and> fst (stop_model_deployment (steady \<lparr>status_code = 503, body = None\<rparr>) ''key''
            (PStr ''m1'') (PStr ''v1'') (fresh None)) = Inr False
   \<and> fst (start_model_deployment (steady \<lparr>status_code = 503, body = None\<rparr>) ''key''
            (PStr ''m1'') (PStr ''v1'') (fresh None)) = Inr False"
  using non_200_is_absorbed [of "steady \<lparr>status_code = 503, body = None\<rparr>" "fresh None"
      "''key''" "PStr ''p1''" "PStr ''m1''" "PStr ''v1''"]
  by (simp add: steady_def)

section \<open>Starting the recorded models\<close>

lemma three_parts: "length xs = 3 \<Longrightarrow> \<exists>a b c. xs = [a, b, c]"
  by (cases xs; cases "tl xs"; cases "tl (tl xs)") auto

lemma start_line_well_formed:
  assumes "well_formed_line l"
  shows "\<exists>w' es. start_line rt k l w = (Inr (), w') \<and> trace w' = trace w @ es
            \<and> requests_of es = [line_request rt k l]"
proof -
  from assms obtain a b c where f: "split_on (CHR '','') (strip l) = [a, b, c]"
    unfolding well_formed_line_def line_fields_def using three_parts by blast
  show ?thesis
    by (simp add: start_line_def f start_model_deployment_def line_request_def line_fields_def)
qed

lemma start_loop_well_formed:
  "\<forall>l\<in>set ls. well_formed_line l \<Longrightarrow>
   \<exists>w' es. for_each (start_line rt k) ls w = (Inr (), w') \<and> trace w' = trace w @ es
      \<and> requests_of es = map (line_request rt k) ls"
proof (induction ls arbitrary: w)
  case Nil
  then show ?case by simp
next
  case (Cons l ls)
  from Cons.prems have wl: "well_formed_line l" and rest: "\<forall>l\<in>set ls. well_formed_line l"
    by simp_all
  from start_line_well_formed [OF wl, of rt k w] obtain w1 es1 where
    s1: "start_line rt k l w = (Inr (), w1)" and t1: "trace w1 = trace w @ es1"
    and r1: "requests_of es1 = [line_request rt k l]" by blast
  from Cons.IH [OF rest, of w1] obtain w2 es2 where
    s2: "for_each (start_line rt k) ls w1 = (Inr (), w2)" and t2: "trace w2 = trace w1 @ es2"
    and r2: "requests_of es2 = map (line_request rt k) ls" by blast
  have "for_each (start_line rt k) (l # ls) w = (Inr (), w2)"
    by (simp add: and_then_apply s1 s2)
  moreover have "trace w2 = trace w @ (es1 @ es2)"
    by (simp add: t1 t2)
  moreover have "requests_of (es1 @ es2) = map (line_request rt k) (l # ls)"
    by (simp add: r1 r2)
  ultimately show ?case by blast
qed

text \<open>
  C2. When \<^verbatim>\<open>stopped_models.txt\<close> exists and each of its K lines is well formed, the start
  operation returns normally and the HTTP requests it issues are exactly the start calls of
  the K lines, one for each line, in the order of the file. This holds in every world,
  whatever happened before (whatever projects and models were listed) and whatever the
  platform answers; and the start branch of the dispatcher is this operation for every
  project, since nothing of the project is handed to it.
\<close>

theorem start_issues_one_call_per_line:
  assumes "pfile w = Some text"
    and "\<forall>l\<in>set (readlines (universal_newlines text)). well_formed_line l"
  shows "(\<exists>w'. start_models_from_file rt k w = (Inr (), w')
           \<and> requests_of (new_events w w')
               = map (line_request rt k) (readlines (universal_newlines text))
           \<and> length (requests_of (new_events w w'))
               = length (readlines (universal_newlines text)))
         \<and> dispatch rt k ''start'' project_id project_name = start_models_from_file rt k"
proof -
  let ?w1 = "w\<lparr>trace := trace w @ [Open stopped_models_txt ''r'', ReadLines, Close]\<rparr>"
  from start_loop_well_formed [OF assms(2), of rt k ?w1] obtain w2 es where
    s: "for_each (start_line rt k) (readlines (universal_newlines text)) ?w1 = (Inr (), w2)"
    and t: "trace w2 = trace ?w1 @ es"
    and r: "requests_of es = map (line_request rt k) (readlines (universal_newlines text))"
    by blast
  have run: "start_models_from_file rt k w = (Inr (), w2)"
    by (simp add: start_models_from_file_def and_then_apply path_exists_stopped_def
        read_stopped_models_def assms(1) s)
  have "trace w2 = trace w @ ([Open stopped_models_txt ''r'', ReadLines, Close] @ es)"
    using t by simp
  then have "new_events w w2 = [Open stopped_models_txt ''r'', ReadLines, Close] @ es"
    by (rule new_events_append)
  then have "requests_of (new_events w w2)
               = map (line_request rt k) (readlines (universal_newlines text))"
    by (simp add: r)
  with run show ?thesis by (simp add: dispatch_def)
qed

theorem start_issues_one_call_per_line_witness:
  "pfile (fresh (Some two_records)) = Some two_records
   \<and> list_all well_formed_line (readlines (universal_newlines two_records))
   \<and> fst (start_models_from_file (steady \<lparr>status_code = 200, body = None\<rparr>) ''key''
            (fresh (Some two_records))) = Inr ()
   \<and> requests_of (new_events (fresh (Some two_records))
        (snd (start_models_from_file (steady \<lparr>status_code = 200, body = None\<rparr>) ''key''
               (fresh (Some two_records)))))
       = [POST ''https://prod-field.cs.domino.tech/v4/models/m1/v1/startModelDeployment''
            (headers ''key'') '''',
          POST ''https://prod-field.cs.domino.tech/v4/models/ m2 /v2/startModelDeployment''
            (headers ''key'') '''']"
proof -
  have f: "pfile (fresh (Some two_records)) = Some two_records"
    by (simp add: fresh_def)
  have wf: "\<forall>l\<in>set (readlines (universal_newlines two_records)). well_formed_line l"
    by code_simp
  have rs: "map (line_request (steady \<lparr>status_code = 200, body = None\<rparr>) ''key'')
              (readlines (universal_newlines two_records))
            = [POST ''https://prod-field.cs.domino.tech/v4/models/m1/v1/startModelDeployment''
                 (headers ''key'') '''',
               POST ''https://prod-field.cs.domino.tech/v4/models/ m2 /v2/startModelDeployment''
                 (headers ''key'') '''']"
    by code_simp
  from start_issues_one_call_per_line
         [OF f wf, of "steady \<lparr>status_code = 200, body = None\<rparr>" "''key''"
            "PStr ''p1''" "PStr ''Scoring''"]
  show ?thesis
    using f wf unfolding rs by (auto simp: list_all_iff)
qed

lemma start_line_malformed:
  "\<not> well_formed_line l \<Longrightarrow>
   start_line rt k l w = (Inl (UnpackError (length (line_fields l))), w)"
  by (auto simp: start_line_def well_formed_line_def line_fields_def split: list.splits)

lemma start_loop_malformed:
  assumes "\<forall>l\<in>set pre. well_formed_line l" and "\<not> well_formed_line bad"
  shows "\<exists>w' es. for_each (start_line rt k) (pre @ bad # post) w
                    = (Inl (UnpackError (length (line_fields bad))), w')
           \<and> trace w' = trace w @ es \<and> requests_of es = map (line_request rt k) pre"
  using assms(1)
proof (induction pre arbitrary: w)
  case Nil
  have "for_each (start_line rt k) ([] @ bad # post) w
          = (Inl (UnpackError (length (line_fields bad))), w)"
    by (simp add: and_then_apply start_line_malformed [OF assms(2)])
  then show ?case by simp
next
  case (Cons l ls)
  from Cons.prems have wl: "well_formed_line l" and rest: "\<forall>l\<in>set ls. well_formed_line l"
    by simp_all
  from start_line_well_formed [OF wl, of rt k w] obtain w1 es1 where
    s1: "start_line rt k l w = (Inr (), w1)" and t1: "trace w1 = trace w @ es1"
    and r1: "requests_of es1 = [line_request rt k l]" by blast
  from Cons.IH [OF rest, of w1] obtain w2 es2 where
    s2: "for_each (start_line rt k) (ls @ bad # post) w1
           = (Inl (UnpackError (length (line_fields bad))), w2)"
    and t2: "trace w2 = trace w1 @ es2"
    and r2: "requests_of es2 = map (line_request rt k) ls" by blast
  have "for_each (start_line rt k) ((l # ls) @ bad # post) w
          = (Inl (UnpackError (length (line_fields bad))), w2)"
    by (simp add: and_then_apply s1 s2)
  moreover have "trace w2 = trace w @ (es1 @ es2)"
    by (simp add: t1 t2)
  moreover have "requests_of (es1 @ es2) = map (line_request rt k) (l # ls)"
    by (simp add: r1 r2)
  ultimately show ?case by blast
qed

text \<open>
  C4. When a line of \<^verbatim>\<open>stopped_models.txt\<close> does not split into exactly three parts, and
  the lines before it do, the start operation ends with the \<^verbatim>\<open>ValueError\<close> of the
  unpacking, which nothing catches; the start calls it has issued are those of the lines
  before the malformed one, so no line after it is processed.
\<close>

theorem start_stops_at_malformed_line:
  assumes "pfile w = Some text"
    and "readlines (universal_newlines text) = pre @ bad # post"
    and "\<forall>l\<in>set pre. well_formed_line l"
    and "\<not> well_formed_line bad"
  shows "\<exists>w'. start_models_from_file rt k w = (Inl (UnpackError (length (line_fields bad))), w')
           \<and> requests_of (new_events w w') = map (line_request rt k) pre"
proof -
  let ?w1 = "w\<lparr>trace := trace w @ [Open stopped_models_txt ''r'', ReadLines, Close]\<rparr>"
  from start_loop_malformed [OF assms(3) assms(4), of rt k post ?w1] obtain w2 es where
    s: "for_each (start_line rt k) (pre @ bad # post) ?w1
          = (Inl (UnpackError (length (line_fields bad))), w2)"
    and t: "trace w2 = trace ?w1 @ es"
    and r: "requests_of es = map (line_request rt k) pre"
    by blast
  have run: "start_models_from_file rt k w = (Inl (UnpackError (length (line_fields bad))), w2)"
    by (simp add: start_models_from_file_def and_then_apply path_exists_stopped_def
        read_stopped_models_def assms(1) assms(2) s)
  have "trace w2 = trace w @ ([Open stopped_models_txt ''r'', ReadLines, Close] @ es)"
    using t by simp
  then have "new_events w w2 = [Open stopped_models_txt ''r'', ReadLines, Close] @ es"
    by (rule new_events_append)
  then have "requests_of (new_events w w2) = map (line_request rt k) pre"
    by (simp add: r)
  with run show ?thesis by simp
qed

theorem start_stops_at_malformed_line_witness:
  "readlines (universal_newlines broken_records)
     = [''churn,m1,v1'' @ [LF]] @ (''garbage'' @ [LF]) # [''fraud,m2,v2'' @ [LF]]
   \<and> list_all well_formed_line [''churn,m1,v1'' @ [LF]]
   \<and> \<not> well_formed_line (''garbage'' @ [LF])
   \<and> fst (start_models_from_file (steady \<lparr>status_code = 200, body = None\<rparr>) ''key''
            (fresh (Some broken_records))) = Inl (UnpackError 1)
   \<and> requests_of (new_events (fresh (Some broken_records))
        (snd (start_models_from_file (steady \<lparr>status_code = 200, body = None\<rparr>) ''key''
               (fresh (Some broken_records)))))
       = [POST ''https://prod-field.cs.domino.tech/v4/models/m1/v1/startModelDeployment''
            (headers ''key'') '''']"
proof -
  have f: "pfile (fresh (Some broken_records)) = Some broken_records"
    by (simp add: fresh_def)
  have ls: "readlines (universal_newlines broken_records)
              = [''churn,m1,v1'' @ [LF]] @ (''garbage'' @ [LF]) # [''fraud,m2,v2'' @ [LF]]"
    by code_simp
  have pre: "\<forall>l\<in>set [''churn,m1,v1'' @ [LF]]. well_formed_line l"
    by code_simp
  have bad: "\<not> well_formed_line (''garbage'' @ [LF])"
    by code_simp
  have n: "length (line_fields (''garbage'' @ [LF])) = 1"
    by code_simp
  have rs: "map (line_request (steady \<lparr>status_code = 200, body = None\<rparr>) ''key'')
              [''churn,m1,v1'' @ [LF]]
            = [POST ''https://prod-field.cs.domino.tech/v4/models/m1/v1/startModelDeployment''
                 (headers ''key'') '''']"
    by code_simp
  from start_stops_at_malformed_line
         [OF f ls pre bad, of "steady \<lparr>status_code = 200, body = None\<rparr>" "''key''"]
  obtain w' where
    "start_models_from_file (steady \<lparr>status_code = 200, body = None\<rparr>) ''key''
       (fresh (Some broken_records)) = (Inl (UnpackError 1), w')"
    "requests_of (new_events (fresh (Some broken_records)) w')
       = [POST ''https://prod-field.cs.domino.tech/v4/models/m1/v1/startModelDeployment''
            (headers ''key'') '''']"
    unfolding n rs by blast
  with ls pre bad show ?thesis
    by (simp only: fst_conv snd_conv list_all_iff simp_thms)
qed

text \<open>
  C6. When \<^verbatim>\<open>stopped_models.txt\<close> does not exist, the start operation returns normally
  and all it does is print one message: it issues no HTTP request.
\<close>

theorem start_without_file_only_prints:
  assumes "pfile w = None"
  shows "start_models_from_file rt k w
           = (Inr (), w\<lparr>trace := trace w
                          @ [Print ''stopped_models.txt not found. No models to start.'']\<rparr>)
         \<and> new_events w (snd (start_models_from_file rt k w))
           = [Print ''stopped_models.txt not found. No models to start.'']
         \<and> requests_of (new_events w (snd (start_models_from_file rt k w))) = []"
proof -
  have run: "start_models_from_file rt k w
           = (Inr (), w\<lparr>trace := trace w
                          @ [Print ''stopped_models.txt not found. No models to start.'']\<rparr>)"
    by (simp add: start_models_from_file_def and_then_apply path_exists_stopped_def assms)
  show ?thesis unfolding run by simp
qed

theorem start_without_file_only_prints_witness:
  "pfile (fresh None) = None
   \<and> fst (start_models_from_file (steady \<lparr>status_code = 200, body = None\<rparr>) ''key''
            (fresh None)) = Inr ()
   \<and> new_events (fresh None)
        (snd (start_models_from_file (steady \<lparr>status_code = 200, body = None\<rparr>) ''key''
               (fresh None)))
       = [Print ''stopped_models.txt not found. No models to start.'']"
proof -
  have f: "pfile (fresh None) = None"
    by (simp add: fresh_def)
  from start_without_file_only_prints
         [OF f, of "steady \<lparr>status_code = 200, body = None\<rparr>" "''key''"]
  show ?thesis using f by simp
qed

text \<open>
  C7. The start operation leaves \<^verbatim>\<open>stopped_models.txt\<close> as it found it, however it ends
  (normally or with an exception): the text of the file is the same after as before, and
  among the events of the run there is no write, no removal and no opening of a file other
  than for reading. So no entry goes away after a successful start call. The same holds for
  the text of the file over a whole run of \<open>main\<close> with the operation \<^verbatim>\<open>start\<close>.
\<close>

theorem start_never_modifies_file:
  "pfile (snd (start_models_from_file rt k w)) = pfile w
   \<and> list_all read_only (new_events w (snd (start_models_from_file rt k w)))
   \<and> pfile (snd (main rt k [''start''] w)) = pfile w"
proof -
  obtain r w' where run: "start_models_from_file rt k w = (r, w')"
    by (cases "start_models_from_file rt k w")
  from emits_onlyD [OF start_models_from_file_emits run] obtain es where
    "trace w' = trace w @ es" "list_all read_only es" by blast
  moreover from keeps_pfileD [OF start_models_from_file_keeps run] have "pfile w' = pfile w"
    by simp
  moreover have "pfile (snd (main rt k [''start''] w)) = pfile w"
    using main_start_keeps [of rt k] unfolding keeps_pfile_def by blast
  ultimately show ?thesis by (simp add: run)
qed

section \<open>The API key\<close>

text \<open>
  C9. With \<^verbatim>\<open>DOMINO_USER_API_KEY\<close> set to the empty string the script ends exactly as
  with the variable unset: with the \<^verbatim>\<open>ValueError\<close> of line 11, for every command line
  (also one the argument parser would reject) and with nothing done to the world, so
  before any argument parsing and any operation.
\<close>

theorem empty_api_key_is_unset:
  "script rt (Some '''') argv w = script rt None argv w
   \<and> script rt None argv w
       = (Inl (ValueError ''API key is not set in the environment variable DOMINO_USER_API_KEY''),
          w)"
  by (simp add: script_def)

section \<open>Fetching the models of a project\<close>

lemma pair_of_fst: "fst p = a \<Longrightarrow> p = (a, snd p)"
  by (cases p) simp

lemma fetch_models_run:
  "\<exists>r resp l s. fetch_models rt k p w
      = (r, w\<lparr>trace := trace w @ [Http (models_request rt k p) resp, Log l s]\<rparr>)"
proof (cases "status_code (server rt (trace w) (models_request rt k p)) = 200")
  case True
  then have "fetch_models rt k p w
      = (case body (server rt (trace w) (models_request rt k p)) of
           None \<Rightarrow> Inl JSONDecodeError | Some v \<Rightarrow> Inr v,
         w\<lparr>trace := trace w @ [Http (models_request rt k p)
              (server rt (trace w) (models_request rt k p)),
              Log DEBUG (''Models fetched successfully for project '' @ py_str rt p)]\<rparr>)"
    by (simp add: fetch_models_def response_json_def split: option.splits)
  then show ?thesis by blast
next
  case False
  then have "fetch_models rt k p w
      = (Inr (PList []),
         w\<lparr>trace := trace w @ [Http (models_request rt k p)
              (server rt (trace w) (models_request rt k p)),
              Log ERROR (''Failed to fetch models for project '' @ py_str rt p @ '': ''
                @ str_int (status_code (server rt (trace w) (models_request rt k p))))]\<rparr>)"
    by (simp add: fetch_models_def)
  then show ?thesis by blast
qed

lemma fetch_models_trace:
  assumes "fetch_models rt k p w = (r, w1)"
  shows "\<exists>resp l s. trace w1 = trace w @ [Http (models_request rt k p) resp, Log l s]"
    and "pfile w1 = pfile w"
  using fetch_models_run [of rt k p w] assms by auto

lemma and_then_trace:
  assumes m: "m w = (r, w1)" and t: "trace w1 = trace w @ es1"
    and f: "\<And>x. emits_only P (f x)"
  shows "\<exists>es2. trace (snd (and_then m f w)) = trace w @ es1 @ es2 \<and> list_all P es2"
proof (cases r)
  case (Inl e)
  with m t show ?thesis by (simp add: and_then_apply)
next
  case (Inr x)
  from f [of x] obtain es2 where "trace (snd (f x w1)) = trace w1 @ es2" "list_all P es2"
    unfolding emits_only_def by blast
  with m t Inr show ?thesis by (simp add: and_then_apply)
qed

section \<open>Showing models\<close>

lemma print_model_emits: "emits_only is_print (print_model rt model)"
  unfolding print_model_def print_field_def
  by (auto simp: is_print_def)

lemma show_block_emits: "emits_only is_print (show_block rt pid pname models)"
  unfolding show_block_def
  by (auto simp: is_print_def intro: print_model_emits)

lemma no_get_requests: "list_all not_get es \<Longrightarrow> filter is_get (requests_of es) = []"
  by (induction es) (auto simp: not_get_def is_get_def requests_of_def split: event.splits request.splits)

lemma show_fetched_emits: "emits_only is_print (show_fetched rt pid pname flag models)"
  unfolding show_fetched_def
  by (auto intro: show_block_emits)

lemma show_models_gets:
  "\<exists>es. trace (snd (show_models rt k pid pname flag w)) = trace w @ es
      \<and> filter is_get (requests_of es) = [models_request rt k pid]"
proof -
  from fetch_models_run [of rt k pid w] obtain r resp l s where
    run: "fetch_models rt k pid w
            = (r, w\<lparr>trace := trace w @ [Http (models_request rt k pid) resp, Log l s]\<rparr>)"
    by blast
  let ?w1 = "w\<lparr>trace := trace w @ [Http (models_request rt k pid) resp, Log l s]\<rparr>"
  have t: "trace ?w1 = trace w @ [Http (models_request rt k pid) resp, Log l s]"
    by simp
  have rest: "\<And>models. emits_only not_get (show_fetched rt pid pname flag models)"
    by (rule emits_only_mono [OF show_fetched_emits])
      (simp add: is_print_def not_get_def split: event.splits)
  from and_then_trace [of "fetch_models rt k pid" w r ?w1 _ not_get
      "show_fetched rt pid pname flag", OF run t rest]
  obtain es2 where
    "trace (snd (show_models rt k pid pname flag w))
       = trace w @ [Http (models_request rt k pid) resp, Log l s] @ es2"
    and "list_all not_get es2"
    unfolding show_models_def by blast
  then show ?thesis
    by (intro exI [of _ "[Http (models_request rt k pid) resp, Log l s] @ es2"])
      (simp add: no_get_requests is_get_def models_request_def)
qed

lemma running_only_none:
  "\<forall>m\<in>set ms. subscript m ''activeVersionStatus'' \<noteq> Inr (PStr ''Running'') \<Longrightarrow>
   running_only ms = Inr [] \<or> (\<exists>e. running_only ms = Inl e)"
  by (induction ms) (auto split: sum.splits)

lemma running_only_total:
  "\<forall>m\<in>set ms. \<exists>st. subscript m ''activeVersionStatus'' = Inr st \<Longrightarrow>
   \<exists>r. running_only ms = Inr r"
  by (induction ms) (auto split: sum.splits)

text \<open>
  C5. When the models that \<open>show_models\<close> fetches for a project are a list in which no model
  has \<^verbatim>\<open>activeVersionStatus\<close> equal to \<^verbatim>\<open>"Running"\<close>, the operation with the running-only
  filter does nothing after the fetch: the world is the one the fetch left, so nothing is
  printed, not even the header of the project. It returns normally when every model has
  the key.
\<close>

theorem show_running_is_silent_without_running_models:
  assumes fetch: "fetch_models rt k pid w = (Inr (PList ms), w1)"
    and none: "\<forall>m\<in>set ms. subscript m ''activeVersionStatus'' \<noteq> Inr (PStr ''Running'')"
  shows "snd (show_models rt k pid pname True w) = w1
         \<and> prints_of (new_events w (snd (show_models rt k pid pname True w))) = []
         \<and> ((\<forall>m\<in>set ms. \<exists>st. subscript m ''activeVersionStatus'' = Inr st)
              \<longrightarrow> fst (show_models rt k pid pname True w) = Inr ())"
proof -
  from fetch_models_trace(1) [OF fetch] obtain resp l s where
    t1: "trace w1 = trace w @ [Http (models_request rt k pid) resp, Log l s]" by blast
  from running_only_none [OF none] have
    run: "show_models rt k pid pname True w
            = (case running_only ms of Inl e \<Rightarrow> Inl e | Inr r \<Rightarrow> Inr (), w1)"
    by (auto simp: show_models_def show_fetched_def and_then_apply fetch)
  then have s: "snd (show_models rt k pid pname True w) = w1"
    by simp
  have "new_events w w1 = [Http (models_request rt k pid) resp, Log l s]"
    using t1 by (rule new_events_append)
  then have p: "prints_of (new_events w (snd (show_models rt k pid pname True w))) = []"
    unfolding s by simp
  have "fst (show_models rt k pid pname True w) = Inr ()"
    if "\<forall>m\<in>set ms. \<exists>st. subscript m ''activeVersionStatus'' = Inr st"
    using running_only_total [OF that] run by auto
  with s p show ?thesis by blast
qed

theorem show_running_is_silent_without_running_models_witness:
  "fst (fetch_models idle_platform ''key'' (PStr ''p1'') (fresh None))
     = Inr (PList [sample_model ''spam'' ''m2'' ''v2'' ''Stopped''])
   \<and> list_all (\<lambda>m. subscript m ''activeVersionStatus'' \<noteq> Inr (PStr ''Running''))
         [sample_model ''spam'' ''m2'' ''v2'' ''Stopped'']
   \<and> prints_of (new_events (fresh None)
        (snd (show_models idle_platform ''key'' (PStr ''p1'') (PStr ''Scoring'') True
               (fresh None)))) = []
   \<and> fst (show_models idle_platform ''key'' (PStr ''p1'') (PStr ''Scoring'') True (fresh None))
       = Inr ()"
proof -
  have f: "fst (fetch_models idle_platform ''key'' (PStr ''p1'') (fresh None))
             = Inr (PList [sample_model ''spam'' ''m2'' ''v2'' ''Stopped''])"
    by code_simp
  have none: "\<forall>m\<in>set [sample_model ''spam'' ''m2'' ''v2'' ''Stopped''].
                subscript m ''activeVersionStatus'' \<noteq> Inr (PStr ''Running'')"
    by code_simp
  have has: "\<forall>m\<in>set [sample_model ''spam'' ''m2'' ''v2'' ''Stopped''].
               \<exists>st. subscript m ''activeVersionStatus'' = Inr st"
    by (simp add: sample_model_def)
  have la: "list_all (\<lambda>m. subscript m ''activeVersionStatus'' \<noteq> Inr (PStr ''Running''))
         [sample_model ''spam'' ''m2'' ''v2'' ''Stopped'']"
    using none by (simp only: list_all_iff)
  from show_running_is_silent_without_running_models
         [OF pair_of_fst [OF f] none, of "PStr ''Scoring''"] has have
    "prints_of (new_events (fresh None)
        (snd (show_models idle_platform ''key'' (PStr ''p1'') (PStr ''Scoring'') True
               (fresh None)))) = []"
    and "fst (show_models idle_platform ''key'' (PStr ''p1'') (PStr ''Scoring'') True (fresh None))
       = Inr ()"
    by blast+
  with f la show ?thesis
    by blast
qed

section \<open>Stopping the running models\<close>

lemma emits_only_open_append [intro!]:
  "P (Open stopped_models_txt ''a'') \<Longrightarrow> emits_only P open_append"
  by (simp add: emits_only_def open_append_def)

lemma emits_only_file_write [intro!]: "P (Write s) \<Longrightarrow> emits_only P (file_write s)"
  by (simp add: emits_only_def file_write_def)

lemma stop_loop_emits: "emits_only is_post_or_log (stop_loop rt k xs acc)"
  by (induction xs arbitrary: acc) (auto intro: stop_model_deployment_emits)

lemma stop_fetched_emits: "emits_only not_get (stop_fetched rt k pid pname models)"
  unfolding stop_fetched_def
  apply (intro emits_only_if emits_only_and_then emits_only_lift emits_only_ret
      emits_only_for_each emits_only_open_append emits_only_file_write emits_only_emit)
       apply (rule emits_only_mono [OF stop_loop_emits])
       apply (auto simp: not_get_def is_post_or_log_def split: event.splits request.splits)
  done

lemma stop_running_models_gets:
  "\<exists>es. trace (snd (stop_running_models rt k pid pname w)) = trace w @ es
      \<and> filter is_get (requests_of es) = [models_request rt k pid]"
proof -
  from fetch_models_run [of rt k pid w] obtain r resp l s where
    run: "fetch_models rt k pid w
            = (r, w\<lparr>trace := trace w @ [Http (models_request rt k pid) resp, Log l s]\<rparr>)"
    by blast
  let ?w1 = "w\<lparr>trace := trace w @ [Http (models_request rt k pid) resp, Log l s]\<rparr>"
  have t: "trace ?w1 = trace w @ [Http (models_request rt k pid) resp, Log l s]"
    by simp
  from and_then_trace [of "fetch_models rt k pid" w r ?w1 _ not_get
      "stop_fetched rt k pid pname", OF run t stop_fetched_emits]
  obtain es2 where
    "trace (snd (stop_running_models rt k pid pname w))
       = trace w @ [Http (models_request rt k pid) resp, Log l s] @ es2"
    and "list_all not_get es2"
    unfolding stop_running_models_def by blast
  then show ?thesis
    by (intro exI [of _ "[Http (models_request rt k pid) resp, Log l s] @ es2"])
      (simp add: no_get_requests is_get_def models_request_def)
qed

lemma post_statuses_simps [simp]:
  "post_statuses [] = []"
  "post_statuses (Http (POST u h d) r # es) = status_code r # post_statuses es"
  "post_statuses (Http (GET u h) r # es) = post_statuses es"
  "post_statuses (Log l s # es) = post_statuses es"
  "post_statuses (Print s # es) = post_statuses es"
  "post_statuses (Open p m # es) = post_statuses es"
  "post_statuses (Write s # es) = post_statuses es"
  "post_statuses (Close # es) = post_statuses es"
  "post_statuses (es @ es') = post_statuses es @ post_statuses es'"
  by (simp_all add: post_statuses_def)

lemma stop_model_deployment_run:
  "\<exists>resp l s. stop_model_deployment rt k i v w
      = (Inr (status_code resp = 200),
         w\<lparr>trace := trace w @ [Http (stop_request rt k i v) resp, Log l s]\<rparr>)"
proof (cases "status_code (server rt (trace w) (stop_request rt k i v)) = 200")
  case True
  then have "stop_model_deployment rt k i v w
      = (Inr (status_code (server rt (trace w) (stop_request rt k i v)) = 200),
         w\<lparr>trace := trace w @ [Http (stop_request rt k i v)
              (server rt (trace w) (stop_request rt k i v)),
              Log DEBUG (''Successfully stopped model deployment for model '' @ py_str rt i
                           @ '' version '' @ py_str rt v)]\<rparr>)"
    by (simp add: stop_model_deployment_def)
  then show ?thesis by blast
next
  case False
  then have "stop_model_deployment rt k i v w
      = (Inr (status_code (server rt (trace w) (stop_request rt k i v)) = 200),
         w\<lparr>trace := trace w @ [Http (stop_request rt k i v)
              (server rt (trace w) (stop_request rt k i v)),
              Log ERROR (''Failed to stop model deployment for model '' @ py_str rt i
                           @ '' version '' @ py_str rt v @ '': ''
                           @ str_int (status_code (server rt (trace w)
                                                     (stop_request rt k i v))))]\<rparr>)"
    by (simp add: stop_model_deployment_def)
  then show ?thesis by blast
qed

lemma stopped_as_skip:
  "\<not> is_running x \<Longrightarrow> stopped_as rt xs es lines \<Longrightarrow> stopped_as rt (x # xs) es lines"
  by (simp add: stopped_as_def)

lemma stopped_as_failed:
  assumes "is_running x" and "status_code resp \<noteq> 200" and "stopped_as rt xs es lines"
  shows "stopped_as rt (x # xs) (Http (POST u h d) resp # Log l s # es) lines"
  using assms unfolding stopped_as_def by auto

lemma stopped_as_done:
  assumes "is_running x" and "status_code resp = 200" and "record_of rt x = Some line"
    and "stopped_as rt xs es lines"
  shows "stopped_as rt (x # xs) (Http (POST u h d) resp # Log l s # es) (line # lines)"
proof -
  from assms(4) obtain ys where ys: "subseq ys (filter is_running xs)"
    "map Some lines = map (record_of rt) ys"
    unfolding stopped_as_def by blast
  have "subseq (x # ys) (filter is_running (x # xs))"
    using ys(1) assms(1) by simp
  moreover have "map Some (line # lines) = map (record_of rt) (x # ys)"
    using ys(2) assms(3) by simp
  ultimately show ?thesis
    using assms unfolding stopped_as_def by (auto simp del: subseq_Cons2_iff)
qed

lemma is_post_or_log_simps [simp]:
  "is_post_or_log (Http (POST u h d) r)"
  "is_post_or_log (Log l s)"
  by (simp_all add: is_post_or_log_def)

lemma stop_loop_run:
  "\<exists>r es. stop_loop rt k xs acc w = (r, w\<lparr>trace := trace w @ es\<rparr>)
      \<and> list_all is_post_or_log es
      \<and> (\<forall>out. r = Inr out \<longrightarrow> (\<exists>lines. out = acc @ lines \<and> stopped_as rt xs es lines))
      \<and> (list_all model_ok xs \<longrightarrow> (\<exists>out. r = Inr out))"
proof (induction xs arbitrary: acc w)
  case Nil
  show ?case
    by (intro exI [of _ "Inr acc"] exI [of _ "[]"]) (simp add: stopped_as_def)
next
  case (Cons x xs)
  show ?case
  proof (cases "subscript x ''activeVersionStatus''")
    case (Inl e)
    then have "stop_loop rt k (x # xs) acc w = (Inl e, w)"
      by simp
    moreover have "\<not> model_ok x"
      using Inl by (simp add: model_ok_def has_key_def)
    ultimately show ?thesis
      by (intro exI [of _ "Inl e"] exI [of _ "[]"]) simp
  next
    case (Inr st)
    show ?thesis
    proof (cases "st = PStr ''Running''")
      case False
      have eq: "stop_loop rt k (x # xs) acc w = stop_loop rt k xs acc w"
        using Inr False by simp
      have nr: "\<not> is_running x"
        using Inr False by (simp add: is_running_def)
      from Cons.IH [of acc w] obtain r es where
        ih: "stop_loop rt k xs acc w = (r, w\<lparr>trace := trace w @ es\<rparr>)"
        "list_all is_post_or_log es"
        "\<forall>out. r = Inr out \<longrightarrow> (\<exists>lines. out = acc @ lines \<and> stopped_as rt xs es lines)"
        "list_all model_ok xs \<longrightarrow> (\<exists>out. r = Inr out)"
        by blast
      show ?thesis
        using ih stopped_as_skip [OF nr] unfolding eq
        by (intro exI [of _ r] exI [of _ es]) auto
    next
      case True
      have run: "is_running x"
        using Inr True by (simp add: is_running_def)
      show ?thesis
      proof (cases "subscript x ''id''")
        case (Inl e)
        then have "stop_loop rt k (x # xs) acc w = (Inl e, w)"
          using Inr True by simp
        moreover have "\<not> model_ok x"
          using Inl run by (simp add: model_ok_def has_key_def)
        ultimately show ?thesis
          by (intro exI [of _ "Inl e"] exI [of _ "[]"]) simp
      next
        case i: (Inr i)
        show ?thesis
        proof (cases "subscript x ''activeModelVersionId''")
          case (Inl e)
          then have "stop_loop rt k (x # xs) acc w = (Inl e, w)"
            using Inr True i by simp
          moreover have "\<not> model_ok x"
            using Inl run by (simp add: model_ok_def has_key_def)
          ultimately show ?thesis
            by (intro exI [of _ "Inl e"] exI [of _ "[]"]) simp
        next
          case v: (Inr v)
          from stop_model_deployment_run [of rt k i v w] obtain resp l s where
            call: "stop_model_deployment rt k i v w
                     = (Inr (status_code resp = 200),
                        w\<lparr>trace := trace w @ [Http (stop_request rt k i v) resp, Log l s]\<rparr>)"
            by blast
          let ?w1 = "w\<lparr>trace := trace w @ [Http (stop_request rt k i v) resp, Log l s]\<rparr>"
          obtain u h d where rq: "stop_request rt k i v = POST u h d"
            by (simp add: stop_request_def)
          show ?thesis
          proof (cases "status_code resp = 200")
            case False
            have eq: "stop_loop rt k (x # xs) acc w = stop_loop rt k xs acc ?w1"
              using Inr True i v call False by (simp add: and_then_apply)
            from Cons.IH [of acc ?w1] obtain r es where
              ih: "stop_loop rt k xs acc ?w1 = (r, ?w1\<lparr>trace := trace ?w1 @ es\<rparr>)"
              "list_all is_post_or_log es"
              "\<forall>out. r = Inr out \<longrightarrow> (\<exists>lines. out = acc @ lines \<and> stopped_as rt xs es lines)"
              "list_all model_ok xs \<longrightarrow> (\<exists>out. r = Inr out)"
              by blast
            show ?thesis
              using ih stopped_as_failed [OF run False, of rt xs _ _ u h d l s] unfolding eq
              by (intro exI [of _ r] exI [of _ "Http (POST u h d) resp # Log l s # es"])
                (auto simp: rq)
          next
            case ok: True
            show ?thesis
            proof (cases "subscript x ''name''")
              case (Inl e)
              then have "stop_loop rt k (x # xs) acc w = (Inl e, ?w1)"
                using Inr True i v call ok by (simp add: and_then_apply)
              moreover have "\<not> model_ok x"
                using Inl run by (simp add: model_ok_def has_key_def)
              ultimately show ?thesis
                by (intro exI [of _ "Inl e"] exI [of _ "[Http (POST u h d) resp, Log l s]"])
                  (simp add: rq)
            next
              case n: (Inr n)
              let ?line = "py_str rt n @ '','' @ py_str rt i @ '','' @ py_str rt v"
              have eq: "stop_loop rt k (x # xs) acc w = stop_loop rt k xs (acc @ [?line]) ?w1"
                using Inr True i v call ok n by (simp add: and_then_apply)
              have rec: "record_of rt x = Some ?line"
                by (simp add: record_of_def n i v)
              from Cons.IH [of "acc @ [?line]" ?w1] obtain r es where
                ih: "stop_loop rt k xs (acc @ [?line]) ?w1 = (r, ?w1\<lparr>trace := trace ?w1 @ es\<rparr>)"
                "list_all is_post_or_log es"
                "\<forall>out. r = Inr out \<longrightarrow>
                   (\<exists>lines. out = (acc @ [?line]) @ lines \<and> stopped_as rt xs es lines)"
                "list_all model_ok xs \<longrightarrow> (\<exists>out. r = Inr out)"
                by blast
              show ?thesis
                using ih stopped_as_done [OF run ok rec, of xs _ _ u h d l s] unfolding eq
                by (intro exI [of _ r] exI [of _ "Http (POST u h d) resp # Log l s # es"])
                  (auto simp: rq)
            qed
          qed
        qed
      qed
    qed
  qed
qed

lemma write_loop:
  "pfile w = Some old \<Longrightarrow>
   for_each (\<lambda>model. file_write (model @ [LF])) out w
     = (Inr (), w\<lparr>trace := trace w @ map (\<lambda>model. Write (model @ [LF])) out,
                  pfile := Some (old @ concat (map (\<lambda>model. model @ [LF]) out))\<rparr>)"
proof (induction out arbitrary: w old)
  case Nil
  then show ?case by simp
next
  case (Cons m out)
  let ?w1 = "w\<lparr>trace := trace w @ [Write (m @ [LF])], pfile := Some (old @ m @ [LF])\<rparr>"
  have step: "file_write (m @ [LF]) w = (Inr (), ?w1)"
    by (simp add: file_write_def Cons.prems)
  have "pfile ?w1 = Some (old @ m @ [LF])" by simp
  from Cons.IH [OF this] step show ?case
    by (simp add: and_then_apply)
qed

lemma stop_fetched_unfold:
  "stop_fetched rt k pid pname (PList xs) w
     = (case stop_loop rt k xs [] w of
          (Inl e, w2) \<Rightarrow> (Inl e, w2)
        | (Inr out, w2) \<Rightarrow>
            if out = [] then (Inr (), w2)
            else (Inr (),
              w2\<lparr>trace := trace w2 @ Open stopped_models_txt ''a''
                      # map (\<lambda>model. Write (model @ [LF])) out
                      @ [Close, Print (''Stopped models for Project ID: '' @ py_str rt pid
                             @ '' and Name: '' @ py_str rt pname
                             @ ''. Details logged in stopped_models.txt.'')],
                  pfile := Some ((case pfile w2 of None \<Rightarrow> [] | Some old \<Rightarrow> old)
                                   @ concat (map (\<lambda>model. model @ [LF]) out))\<rparr>))"
proof (cases "xs = []")
  case True
  then show ?thesis by (simp add: stop_fetched_def)
next
  case False
  obtain r w2 where loop: "stop_loop rt k xs [] w = (r, w2)"
    by (cases "stop_loop rt k xs [] w")
  show ?thesis
  proof (cases r)
    case (Inl e)
    with loop False show ?thesis
      by (simp add: stop_fetched_def and_then_apply)
  next
    case (Inr out)
    show ?thesis
    proof (cases "out = []")
      case True
      with loop False Inr show ?thesis
        by (simp add: stop_fetched_def and_then_apply)
    next
      case ne: False
      let ?old = "case pfile w2 of None \<Rightarrow> [] | Some old \<Rightarrow> old"
      let ?w3 = "w2\<lparr>trace := trace w2 @ [Open stopped_models_txt ''a''], pfile := Some ?old\<rparr>"
      have op: "open_append w2 = (Inr (), ?w3)"
        by (simp add: open_append_def)
      have "pfile ?w3 = Some ?old" by simp
      from write_loop [OF this, of out] have
        wr: "for_each (\<lambda>model. file_write (model @ [LF])) out ?w3
               = (Inr (), ?w3\<lparr>trace := trace ?w3 @ map (\<lambda>model. Write (model @ [LF])) out,
                    pfile := Some (?old @ concat (map (\<lambda>model. model @ [LF]) out))\<rparr>)" .
      show ?thesis
        using loop False Inr ne
        by (simp add: stop_fetched_def and_then_apply op wr)
    qed
  qed
qed

lemma writes_of_simps [simp]:
  "writes_of [] = []"
  "writes_of (Http rq r # es) = writes_of es"
  "writes_of (Log l s # es) = writes_of es"
  "writes_of (Print s # es) = writes_of es"
  "writes_of (Open p m # es) = writes_of es"
  "writes_of (Write s # es) = s # writes_of es"
  "writes_of (Close # es) = writes_of es"
  "writes_of (es @ es') = writes_of es @ writes_of es'"
  by (simp_all add: writes_of_def)

lemma writes_only:
  "writes_of (map (\<lambda>m. Write (f m)) out) = map f out"
  "post_statuses (map (\<lambda>m. Write (f m)) out) = []"
  "requests_of (map (\<lambda>m. Write (f m)) out) = []"
  by (induction out) simp_all

lemma posts_and_logs_only:
  assumes "list_all is_post_or_log es"
  shows "writes_of es = []" and "\<not> list_ex touches_file es"
  using assms
  by (induction es)
    (auto simp: is_post_or_log_def touches_file_def writes_of_def split: event.splits request.splits)

lemma universal_newlines_plain: "CR \<notin> set s \<Longrightarrow> universal_newlines s = s"
  by (induction s rule: universal_newlines.induct) auto

lemma readlines_first: "LF \<notin> set l \<Longrightarrow> readlines (l @ LF # rest) = (l @ [LF]) # readlines rest"
  by (induction l) auto

lemma readlines_records:
  "\<forall>l\<in>set lines. LF \<notin> set l \<Longrightarrow>
   readlines (concat (map (\<lambda>l. l @ [LF]) lines)) = map (\<lambda>l. l @ [LF]) lines"
  by (induction lines) (simp_all add: readlines_first)

lemma records_read_back:
  assumes "\<forall>l\<in>set lines. LF \<notin> set l \<and> CR \<notin> set l"
  shows "readlines (universal_newlines (concat (map (\<lambda>l. l @ [LF]) lines)))
           = map (\<lambda>l. l @ [LF]) lines"
proof -
  have "CR \<notin> set (concat (map (\<lambda>l. l @ [LF]) lines))"
    using assms by (auto simp: CR_def LF_def)
  then show ?thesis
    using assms by (simp add: universal_newlines_plain readlines_records)
qed

text \<open>
  C3. Let the models fetched for a project be a list \<open>xs\<close> of models that have the keys the
  stop operation reads. Then the operation returns normally; it issues one stop call for
  each of the N running models of \<open>xs\<close>; with M the number of stop calls that got status 200,
  it writes M lines, each \<^verbatim>\<open>name,model_id,version_id\<close> of a running model followed by a
  newline, and the text of the file afterwards is the old text followed by these lines. With
  M = 0 (no running model, or no successful stop) the file is as before and no event of the
  run touches a file. When no record holds a line break, reading the appended text back
  gives exactly these M lines.
\<close>

theorem stop_appends_one_line_per_stopped_model:
  assumes fetch: "fetch_models rt k pid w = (Inr (PList xs), w1)"
    and ok: "\<forall>x\<in>set xs. model_ok x"
  shows "\<exists>w' lines.
      stop_running_models rt k pid pname w = (Inr (), w')
    \<and> length (post_statuses (new_events w1 w')) = length (filter is_running xs)
    \<and> length lines = length (filter (\<lambda>c. c = 200) (post_statuses (new_events w1 w')))
    \<and> (\<exists>ys. subseq ys (filter is_running xs) \<and> map Some lines = map (record_of rt) ys)
    \<and> writes_of (new_events w1 w') = map (\<lambda>l. l @ [LF]) lines
    \<and> (lines = [] \<longrightarrow> pfile w' = pfile w \<and> \<not> list_ex touches_file (new_events w1 w'))
    \<and> (lines \<noteq> [] \<longrightarrow>
          pfile w' = Some ((case pfile w of None \<Rightarrow> [] | Some old \<Rightarrow> old)
                             @ concat (map (\<lambda>l. l @ [LF]) lines)))
    \<and> ((\<forall>l\<in>set lines. LF \<notin> set l \<and> CR \<notin> set l) \<longrightarrow>
          readlines (universal_newlines (concat (map (\<lambda>l. l @ [LF]) lines)))
            = map (\<lambda>l. l @ [LF]) lines)"
proof -
  have start: "stop_running_models rt k pid pname w = stop_fetched rt k pid pname (PList xs) w1"
    by (simp add: stop_running_models_def and_then_apply fetch)
  have f1: "pfile w1 = pfile w"
    using fetch_models_trace(2) [OF fetch] .
  have oks: "list_all model_ok xs"
    using ok by (simp add: list_all_iff)
  from stop_loop_run [of rt k xs "[]" w1] obtain r es where
    loop0: "stop_loop rt k xs [] w1 = (r, w1\<lparr>trace := trace w1 @ es\<rparr>)"
    and es: "list_all is_post_or_log es"
    and res: "\<forall>out. r = Inr out \<longrightarrow> (\<exists>lines. out = [] @ lines \<and> stopped_as rt xs es lines)"
    and tot: "list_all model_ok xs \<longrightarrow> (\<exists>out. r = Inr out)"
    by blast
  from tot oks obtain lines where r: "r = Inr lines"
    by blast
  from res r have st: "stopped_as rt xs es lines"
    by simp
  have loop: "stop_loop rt k xs [] w1 = (Inr lines, w1\<lparr>trace := trace w1 @ es\<rparr>)"
    using loop0 r by simp
  let ?w2 = "w1\<lparr>trace := trace w1 @ es\<rparr>"
  from st have n: "length (post_statuses es) = length (filter is_running xs)"
    unfolding stopped_as_def by blast
  from st have m: "length lines = length (filter (\<lambda>c. c = 200) (post_statuses es))"
    unfolding stopped_as_def by blast
  from st have ys: "\<exists>ys. subseq ys (filter is_running xs) \<and> map Some lines = map (record_of rt) ys"
    unfolding stopped_as_def by blast
  have reread: "(\<forall>l\<in>set lines. LF \<notin> set l \<and> CR \<notin> set l) \<longrightarrow>
          readlines (universal_newlines (concat (map (\<lambda>l. l @ [LF]) lines)))
            = map (\<lambda>l. l @ [LF]) lines"
    using records_read_back by blast
  show ?thesis
  proof (cases "lines = []")
    case True
    have run: "stop_running_models rt k pid pname w = (Inr (), ?w2)"
      unfolding start stop_fetched_unfold loop using True by simp
    have ne: "new_events w1 ?w2 = es"
      by (rule new_events_append) simp
    have wr: "writes_of (new_events w1 ?w2) = map (\<lambda>l. l @ [LF]) lines"
      unfolding ne using True posts_and_logs_only(1) [OF es] by simp
    have quiet: "lines = [] \<longrightarrow> pfile ?w2 = pfile w \<and> \<not> list_ex touches_file (new_events w1 ?w2)"
      unfolding ne using f1 posts_and_logs_only(2) [OF es] by simp
    have pf: "lines \<noteq> [] \<longrightarrow>
          pfile ?w2 = Some ((case pfile w of None \<Rightarrow> [] | Some old \<Rightarrow> old)
                             @ concat (map (\<lambda>l. l @ [LF]) lines))"
      using True by simp
    have n': "length (post_statuses (new_events w1 ?w2)) = length (filter is_running xs)"
      unfolding ne by (rule n)
    have m': "length lines = length (filter (\<lambda>c. c = 200) (post_statuses (new_events w1 ?w2)))"
      unfolding ne by (rule m)
    from run n' m' ys wr quiet pf reread show ?thesis
      by blast
  next
    case False
    let ?tail = "Open stopped_models_txt ''a''
                      # map (\<lambda>model. Write (model @ [LF])) lines
                      @ [Close, Print (''Stopped models for Project ID: '' @ py_str rt pid
                             @ '' and Name: '' @ py_str rt pname
                             @ ''. Details logged in stopped_models.txt.'')]"
    let ?w3 = "?w2\<lparr>trace := trace ?w2 @ ?tail,
                  pfile := Some ((case pfile ?w2 of None \<Rightarrow> [] | Some old \<Rightarrow> old)
                                   @ concat (map (\<lambda>model. model @ [LF]) lines))\<rparr>"
    have run: "stop_running_models rt k pid pname w = (Inr (), ?w3)"
      unfolding start stop_fetched_unfold loop using False by simp
    have "trace ?w3 = trace w1 @ (es @ ?tail)"
      by simp
    then have ne: "new_events w1 ?w3 = es @ ?tail"
      by (rule new_events_append)
    have p: "post_statuses (new_events w1 ?w3) = post_statuses es"
      unfolding ne by (simp add: writes_only)
    have wr: "writes_of (new_events w1 ?w3) = map (\<lambda>l. l @ [LF]) lines"
      unfolding ne by (simp add: writes_only posts_and_logs_only(1) [OF es])
    have quiet: "lines = [] \<longrightarrow> pfile ?w3 = pfile w \<and> \<not> list_ex touches_file (new_events w1 ?w3)"
      using False by simp
    have pf: "lines \<noteq> [] \<longrightarrow>
          pfile ?w3 = Some ((case pfile w of None \<Rightarrow> [] | Some old \<Rightarrow> old)
                             @ concat (map (\<lambda>l. l @ [LF]) lines))"
      using f1 by simp
    have n': "length (post_statuses (new_events w1 ?w3)) = length (filter is_running xs)"
      unfolding p by (rule n)
    have m': "length lines = length (filter (\<lambda>c. c = 200) (post_statuses (new_events w1 ?w3)))"
      unfolding p by (rule m)
    from run n' m' ys wr quiet pf reread show ?thesis
      by blast
  qed
qed

theorem stop_appends_one_line_per_stopped_model_witness:
  "fst (fetch_models sample_platform ''key'' (PStr ''p1'') (fresh None)) = Inr (PList sample_models)
   \<and> list_all model_ok sample_models
   \<and> length (filter is_running sample_models) = 2
   \<and> fst (stop_running_models sample_platform ''key'' (PStr ''p1'') (PStr ''Scoring'') (fresh None))
       = Inr ()
   \<and> pfile (snd (stop_running_models sample_platform ''key'' (PStr ''p1'') (PStr ''Scoring'')
                   (fresh None)))
       = Some (''churn,m1,v1'' @ [LF])"
proof -
  have f: "fst (fetch_models sample_platform ''key'' (PStr ''p1'') (fresh None))
             = Inr (PList sample_models)"
    by code_simp
  have ok: "\<forall>x\<in>set sample_models. model_ok x"
    by code_simp
  have n: "length (filter is_running sample_models) = 2"
    by code_simp
  have p: "pfile (snd (stop_running_models sample_platform ''key'' (PStr ''p1'') (PStr ''Scoring'')
                   (fresh None)))
       = Some (''churn,m1,v1'' @ [LF])"
    by code_simp
  from stop_appends_one_line_per_stopped_model
         [OF pair_of_fst [OF f] ok, of "PStr ''Scoring''"] obtain w' where
    "stop_running_models sample_platform ''key'' (PStr ''p1'') (PStr ''Scoring'') (fresh None)
       = (Inr (), w')"
    by blast
  then have "fst (stop_running_models sample_platform ''key'' (PStr ''p1'') (PStr ''Scoring'')
                    (fresh None)) = Inr ()"
    by simp
  with f ok n p show ?thesis
    by (simp only: list_all_iff simp_thms)
qed

text \<open>
  C10. Let the models fetched for a project be a list \<open>xs\<close>. The events of the stop operation
  after the fetch fall into two parts: first the stop calls and their log entries, among
  which no file is touched, then, from the opening of the file on, events with no HTTP
  request among them. The lines written are the records of models \<open>ys\<close> that form a
  subsequence of \<open>xs\<close>, in that order, and the file ends as the old text followed by them.
\<close>

theorem stop_writes_in_order_after_all_calls:
  assumes fetch: "fetch_models rt k pid w = (Inr (PList xs), w1)"
  shows "\<exists>r w' before after ys lines.
      stop_running_models rt k pid pname w = (r, w')
    \<and> trace w' = trace w1 @ before @ after
    \<and> list_all is_post_or_log before
    \<and> requests_of after = []
    \<and> writes_of after = map (\<lambda>l. l @ [LF]) lines
    \<and> subseq ys xs
    \<and> map Some lines = map (record_of rt) ys
    \<and> pfile w' = (if lines = [] then pfile w
                   else Some ((case pfile w of None \<Rightarrow> [] | Some old \<Rightarrow> old)
                                @ concat (map (\<lambda>l. l @ [LF]) lines)))"
proof -
  have start: "stop_running_models rt k pid pname w = stop_fetched rt k pid pname (PList xs) w1"
    by (simp add: stop_running_models_def and_then_apply fetch)
  have f1: "pfile w1 = pfile w"
    using fetch_models_trace(2) [OF fetch] .
  from stop_loop_run [of rt k xs "[]" w1] obtain r es where
    loop: "stop_loop rt k xs [] w1 = (r, w1\<lparr>trace := trace w1 @ es\<rparr>)"
    and es: "list_all is_post_or_log es"
    and res: "\<forall>out. r = Inr out \<longrightarrow> (\<exists>lines. out = [] @ lines \<and> stopped_as rt xs es lines)"
    by blast
  let ?w2 = "w1\<lparr>trace := trace w1 @ es\<rparr>"
  have none: "subseq [] xs" "map Some [] = map (record_of rt) []"
    by simp_all
  show ?thesis
  proof (cases r)
    case (Inl e)
    have run: "stop_running_models rt k pid pname w = (Inl e, ?w2)"
      unfolding start stop_fetched_unfold loop using Inl by simp
    have t: "trace ?w2 = trace w1 @ es @ []" by simp
    have a: "requests_of [] = []" "writes_of [] = map (\<lambda>l. l @ [LF]) []" by simp_all
    have pf: "pfile ?w2 = (if ([]::string list) = [] then pfile w
                   else Some ((case pfile w of None \<Rightarrow> [] | Some old \<Rightarrow> old)
                                @ concat (map (\<lambda>l. l @ [LF]) [])))"
      using f1 by simp
    from run t es a none pf show ?thesis by blast
  next
    case (Inr lines)
    with res have st: "stopped_as rt xs es lines" by simp
    then obtain ys where ys: "subseq ys (filter is_running xs)"
      "map Some lines = map (record_of rt) ys"
      unfolding stopped_as_def by blast
    have sub: "subseq ys xs"
      using ys(1) subseq_filter_left subseq_order.order_trans by blast
    show ?thesis
    proof (cases "lines = []")
      case True
      have run: "stop_running_models rt k pid pname w = (Inr (), ?w2)"
        unfolding start stop_fetched_unfold loop using Inr True by simp
      have t: "trace ?w2 = trace w1 @ es @ []" by simp
      have a: "requests_of [] = []" "writes_of [] = map (\<lambda>l. l @ [LF]) lines"
        using True by simp_all
      have pf: "pfile ?w2 = (if lines = [] then pfile w
                   else Some ((case pfile w of None \<Rightarrow> [] | Some old \<Rightarrow> old)
                                @ concat (map (\<lambda>l. l @ [LF]) lines)))"
        using f1 True by simp
      from run t es a sub ys(2) pf show ?thesis by blast
    next
      case False
      let ?tail = "Open stopped_models_txt ''a''
                      # map (\<lambda>model. Write (model @ [LF])) lines
                      @ [Close, Print (''Stopped models for Project ID: '' @ py_str rt pid
                             @ '' and Name: '' @ py_str rt pname
                             @ ''. Details logged in stopped_models.txt.'')]"
      let ?w3 = "?w2\<lparr>trace := trace ?w2 @ ?tail,
                  pfile := Some ((case pfile ?w2 of None \<Rightarrow> [] | Some old \<Rightarrow> old)
                                   @ concat (map (\<lambda>model. model @ [LF]) lines))\<rparr>"
      have run: "stop_running_models rt k pid pname w = (Inr (), ?w3)"
        unfolding start stop_fetched_unfold loop using Inr False by simp
      have t: "trace ?w3 = trace w1 @ es @ ?tail" by simp
      have a: "requests_of ?tail = []" "writes_of ?tail = map (\<lambda>l. l @ [LF]) lines"
        by (simp_all add: writes_only)
      have pf: "pfile ?w3 = (if lines = [] then pfile w
                   else Some ((case pfile w of None \<Rightarrow> [] | Some old \<Rightarrow> old)
                                @ concat (map (\<lambda>l. l @ [LF]) lines)))"
        using f1 False by simp
      from run t es a sub ys(2) pf show ?thesis by blast
    qed
  qed
qed

theorem stop_writes_in_order_after_all_calls_witness:
  "fst (fetch_models sample_platform ''key'' (PStr ''p1'') (fresh None)) = Inr (PList sample_models)
   \<and> (\<exists>r w' before after ys lines.
        stop_running_models sample_platform ''key'' (PStr ''p1'') (PStr ''Scoring'') (fresh None)
          = (r, w')
      \<and> trace w' = trace (snd (fetch_models sample_platform ''key'' (PStr ''p1'') (fresh None)))
                     @ before @ after
      \<and> list_all is_post_or_log before
      \<and> requests_of after = []
      \<and> writes_of after = map (\<lambda>l. l @ [LF]) lines
      \<and> subseq ys sample_models
      \<and> map Some lines = map (record_of sample_platform) ys)
   \<and> writes_of (new_events (fresh None)
        (snd (stop_running_models sample_platform ''key'' (PStr ''p1'') (PStr ''Scoring'')
               (fresh None))))
       = [''churn,m1,v1'' @ [LF]]"
proof -
  have f: "fst (fetch_models sample_platform ''key'' (PStr ''p1'') (fresh None))
             = Inr (PList sample_models)"
    by code_simp
  have wr: "writes_of (new_events (fresh None)
        (snd (stop_running_models sample_platform ''key'' (PStr ''p1'') (PStr ''Scoring'')
               (fresh None))))
       = [''churn,m1,v1'' @ [LF]]"
    by code_simp
  from stop_writes_in_order_after_all_calls
         [OF pair_of_fst [OF f], of "PStr ''Scoring''"] have
    "\<exists>r w' before after ys lines.
        stop_running_models sample_platform ''key'' (PStr ''p1'') (PStr ''Scoring'') (fresh None)
          = (r, w')
      \<and> trace w' = trace (snd (fetch_models sample_platform ''key'' (PStr ''p1'') (fresh None)))
                     @ before @ after
      \<and> list_all is_post_or_log before
      \<and> requests_of after = []
      \<and> writes_of after = map (\<lambda>l. l @ [LF]) lines
      \<and> subseq ys sample_models
      \<and> map Some lines = map (record_of sample_platform) ys"
    by blast
  with f wr show ?thesis
    by blast
qed

section \<open>The dispatcher\<close>

lemma dispatch_gets:
  assumes "operation \<in> {''show-all'', ''show-running'', ''stop''}"
  shows "\<exists>es. trace (snd (dispatch rt k operation pid pname w)) = trace w @ es
      \<and> filter is_get (requests_of es) = [models_request rt k pid]"
  using assms show_models_gets [of rt k pid pname _ w] stop_running_models_gets [of rt k pid pname w]
  by (auto simp: dispatch_def)

text \<open>
  C8. For a project whose models, as the dispatcher fetched them, are not empty, and one of
  the operations show-all, show-running and stop: the body of the dispatcher's loop does
  what the operation does from the world after the banner, whatever the fetched models were
  (they are not handed on), and the GET requests of the whole step are exactly two, both the
  getModels request of this project: the dispatcher's and the operation's own.
\<close>

theorem dispatcher_fetches_models_twice:
  assumes op: "operation \<in> {''show-all'', ''show-running'', ''stop''}"
    and pid: "subscript project ''id'' = Inr pid"
    and pname: "subscript project ''name'' = Inr pname"
    and fetch: "fetch_models rt k pid w = (Inr models, w1)"
    and some: "truthy models"
  shows "main_project rt k operation project w
           = dispatch rt k operation pid pname
               (w1\<lparr>trace := trace w1 @
                   [Log DEBUG (''Operation: '' @ operation @ '', Project ID: ''
                                 @ py_str rt pid @ '', Project Name: '' @ py_str rt pname),
                    Print (''Performing operation '' @ [CHR 0x27] @ operation @ [CHR 0x27]
                             @ '' on Project ID: '' @ py_str rt pid
                             @ '' and Name: '' @ py_str rt pname)]\<rparr>)
         \<and> filter is_get (requests_of (new_events w (snd (main_project rt k operation project w))))
           = [models_request rt k pid, models_request rt k pid]"
proof -
  let ?banner = "[Log DEBUG (''Operation: '' @ operation @ '', Project ID: ''
                                 @ py_str rt pid @ '', Project Name: '' @ py_str rt pname),
                    Print (''Performing operation '' @ [CHR 0x27] @ operation @ [CHR 0x27]
                             @ '' on Project ID: '' @ py_str rt pid
                             @ '' and Name: '' @ py_str rt pname)]"
  let ?w2 = "w1\<lparr>trace := trace w1 @ ?banner\<rparr>"
  have run: "main_project rt k operation project w = dispatch rt k operation pid pname ?w2"
    by (simp add: main_project_def pid pname and_then_apply fetch some)
  from fetch_models_trace(1) [OF fetch] obtain resp l s where
    t1: "trace w1 = trace w @ [Http (models_request rt k pid) resp, Log l s]" by blast
  from dispatch_gets [OF op, of rt k pid pname ?w2] obtain es where
    t2: "trace (snd (dispatch rt k operation pid pname ?w2)) = trace ?w2 @ es"
    and g: "filter is_get (requests_of es) = [models_request rt k pid]" by blast
  have "trace (snd (main_project rt k operation project w))
          = trace w @ ([Http (models_request rt k pid) resp, Log l s] @ ?banner @ es)"
    unfolding run t2 using t1 by simp
  then have "new_events w (snd (main_project rt k operation project w))
          = [Http (models_request rt k pid) resp, Log l s] @ ?banner @ es"
    by (rule new_events_append)
  then have "filter is_get (requests_of (new_events w (snd (main_project rt k operation project w))))
           = [models_request rt k pid, models_request rt k pid]"
    by (simp add: g is_get_def models_request_def)
  with run show ?thesis by blast
qed

theorem dispatcher_fetches_models_twice_witness:
  "''stop'' \<in> {''show-all'', ''show-running'', ''stop''}
   \<and> subscript sample_project ''id'' = Inr (PStr ''p1'')
   \<and> subscript sample_project ''name'' = Inr (PStr ''Scoring'')
   \<and> fst (fetch_models sample_platform ''key'' (PStr ''p1'') (fresh None))
       = Inr (PList sample_models)
   \<and> truthy (PList sample_models)
   \<and> filter is_get (requests_of (new_events (fresh None)
        (snd (main_project sample_platform ''key'' ''stop'' sample_project (fresh None)))))
       = [GET ''https://prod-field.cs.domino.tech/v4/modelManager/getModels?projectId=p1''
            (headers ''key''),
          GET ''https://prod-field.cs.domino.tech/v4/modelManager/getModels?projectId=p1''
            (headers ''key'')]"
proof -
  have op: "''stop'' \<in> {''show-all'', ''show-running'', ''stop''}"
    by simp
  have i: "subscript sample_project ''id'' = Inr (PStr ''p1'')"
    by (simp add: sample_project_def)
  have n: "subscript sample_project ''name'' = Inr (PStr ''Scoring'')"
    by (simp add: sample_project_def)
  have f: "fst (fetch_models sample_platform ''key'' (PStr ''p1'') (fresh None))
             = Inr (PList sample_models)"
    by code_simp
  have t: "truthy (PList sample_models)"
    by code_simp
  have rq: "models_request sample_platform ''key'' (PStr ''p1'')
              = GET ''https://prod-field.cs.domino.tech/v4/modelManager/getModels?projectId=p1''
                  (headers ''key'')"
    by code_simp
  from dispatcher_fetches_models_twice
         [OF op i n pair_of_fst [OF f] t] have
    "filter is_get (requests_of (new_events (fresh None)
        (snd (main_project sample_platform ''key'' ''stop'' sample_project (fresh None)))))
       = [GET ''https://prod-field.cs.domino.tech/v4/modelManager/getModels?projectId=p1''
            (headers ''key''),
          GET ''https://prod-field.cs.domino.tech/v4/modelManager/getModels?projectId=p1''
            (headers ''key'')]"
    unfolding rq by blast
  with op i n f t show ?thesis
    by blast
qed

end
